theory Spec2Isabelle
  imports Complex_Main
begin

section \<open>Python values and errors\<close>

text \<open>
  The two pipelines of the repository (the churn pipeline under \<open>ETL_PIPELINE/scripts\<close> and
  the air-quality pipeline under \<open>urban_air_pollutants\<close>) are Python scripts over pandas
  frames.  Exceptions are values of \<open>py_error\<close>; a fallible operation returns
  \<open>py_error + 'a\<close> with \<open>Inl\<close> for the raise.
\<close>

datatype py_error = ValueError | IndexError | KeyError

subsection \<open>Batching: \<open>for start in range(0, total_rows, batch_size)\<close>\<close>

text \<open>
  Both loaders walk the frame with \<open>range(0, total_rows, batch_size)\<close> and cut
  \<open>df.iloc[start : start + batch_size]\<close>.  \<open>range_from\<close> is the list of loop values for a
  positive step; \<open>py_range\<close> adds Python's \<open>ValueError\<close> for a zero step.
\<close>

function range_from :: "nat \<Rightarrow> nat \<Rightarrow> nat \<Rightarrow> nat list" where
  "range_from start stop step =
     (if step = 0 \<or> stop \<le> start then []
      else start # range_from (start + step) stop step)"
  by pat_completeness auto
termination
  by (relation "measure (\<lambda>(start, stop, step). stop - start)") auto

declare range_from.simps [simp del]

definition py_range :: "nat \<Rightarrow> nat \<Rightarrow> nat \<Rightarrow> py_error + nat list" where
  "py_range start stop step =
     (if step = 0 then Inl ValueError else Inr (range_from start stop step))"

definition iloc :: "'a list \<Rightarrow> nat \<Rightarrow> nat \<Rightarrow> 'a list" where
  \<comment> \<open>\<open>df.iloc[a : b]\<close> for \<open>0 \<le> a \<le> b\<close>: the slice is clipped at the end of the frame.\<close>
  "iloc df a b = take (b - a) (drop a df)"

definition batch :: "'a list \<Rightarrow> nat \<Rightarrow> py_error + 'a list list" where
  "batch df batch_size =
     (case py_range 0 (length df) batch_size of
        Inl e \<Rightarrow> Inl e
      | Inr starts \<Rightarrow> Inr (map (\<lambda>start. iloc df start (start + batch_size)) starts))"

section \<open>The loaders\<close>

subsection \<open>The remote store\<close>

text \<open>
  \<open>supabase.table(t).insert(records).execute()\<close> either raises or returns a response
  object; the response may carry \<open>data\<close> and an \<open>error\<close> payload.  The store is outside
  the repository, so it is a parameter: \<open>remote k records\<close> is what the \<open>k\<close>-th insert call
  of the run (counted from 0) answers when sent \<open>records\<close>.  The field \<open>sent\<close> logs the
  payload of every insert call, oldest first, so \<open>length sent\<close> is the number of calls
  made so far.
\<close>

datatype 'r response = Raises string | Returns "'r list option" "string option"

type_synonym 'r remote = "nat \<Rightarrow> 'r list \<Rightarrow> 'r response"

record 'r client =
  sent :: "'r list list"

subsection \<open>Air-quality loader (\<open>urban_air_pollutants/load.py\<close>)\<close>

datatype pyval =
    PNone | PNaN | PFloat real | PInt int | PStr string
  | PTimestamp int | PNaT | PMethod string

text \<open>
  \<open>PNaN\<close> is the float \<open>nan\<close>, \<open>PFloat\<close> every other float (idealised as a real number),
  \<open>PTimestamp\<close> a \<open>pd.Timestamp\<close> (nanoseconds since the epoch), \<open>PNaT\<close> pandas' missing
  timestamp and \<open>PMethod\<close> a bound method object.  A row or record is a dict from column
  names to values.
\<close>

type_synonym row = "string \<rightharpoonup> pyval"

definition BATCH_SIZE :: nat where
  "BATCH_SIZE = 200"

definition nan_to_none :: "pyval \<Rightarrow> pyval" where
  \<comment> \<open>\<open>if isinstance(v, float) and np.isnan(v): record[k] = None\<close>\<close>
  "nan_to_none v = (if v = PNaN then PNone else v)"

definition clean_record :: "(int \<Rightarrow> string) \<Rightarrow> row \<Rightarrow> py_error + row" where
  \<comment> \<open>\<open>isoformat\<close> is \<open>pd.Timestamp.isoformat\<close>, a library function taken as a parameter.\<close>
  "clean_record isoformat row =
     (let record = (\<lambda>k. map_option nan_to_none (row k)) in
      case record ''time'' of
        None \<Rightarrow> Inl KeyError
      | Some (PTimestamp t) \<Rightarrow> Inr (record(''time'' \<mapsto> PStr (isoformat t)))
      | Some _ \<Rightarrow> Inr record)"

text \<open>
  The loader cleans the rows that \<open>batch_df.iterrows()\<close> yields.  \<open>iterrows\<close> builds a
  Series from each frame row and pandas infers the dtype of that Series again (a row
  holding only timestamps and NaN becomes a datetime Series, its NaN turning into NaT), so
  the values \<open>clean_record\<close> sees are those of \<open>iterrows row\<close>.  The inference is library
  behaviour and a parameter here; the Series keeps the row's keys.
\<close>

fun clean_records ::
  "(int \<Rightarrow> string) \<Rightarrow> (row \<Rightarrow> row) \<Rightarrow> row list \<Rightarrow> py_error + row list" where
  \<comment> \<open>\<open>[clean_record(row) for _, row in batch_df.iterrows()]\<close>\<close>
  "clean_records isoformat iterrows [] = Inr []"
| "clean_records isoformat iterrows (r # rs) =
     (case clean_record isoformat (iterrows r) of
        Inl e \<Rightarrow> Inl e
      | Inr c \<Rightarrow> (case clean_records isoformat iterrows rs of
                   Inl e \<Rightarrow> Inl e
                 | Inr cs \<Rightarrow> Inr (c # cs)))"

definition has_data :: "'r response \<Rightarrow> bool" where
  \<comment> \<open>the call returned and \<open>response.data is not None\<close>\<close>
  "has_data r = (case r of Raises e \<Rightarrow> False | Returns d e \<Rightarrow> d \<noteq> None)"

function insert_attempts ::
  "'r remote \<Rightarrow> 'r list \<Rightarrow> nat \<Rightarrow> nat \<Rightarrow> 'r list list \<Rightarrow> bool \<times> 'r list list" where
  "insert_attempts remote batch_records retries attempt calls =
     (if attempt < retries + 1 then
        (if has_data (remote (length calls) batch_records)
         then (True, calls @ [batch_records])
         else insert_attempts remote batch_records retries (attempt + 1) (calls @ [batch_records]))
      else (False, calls))"
  by pat_completeness auto
termination
  by (relation "measure (\<lambda>(remote, batch_records, retries, attempt, calls). retries + 1 - attempt)")
    auto

declare insert_attempts.simps [simp del]

definition insert_batch :: "'r remote \<Rightarrow> 'r list \<Rightarrow> nat \<Rightarrow> 'r list list \<Rightarrow> bool \<times> 'r list list" where
  \<comment> \<open>\<open>for attempt in range(retries + 1)\<close>, returning \<open>True\<close> at the first success\<close>
  "insert_batch remote batch_records retries calls =
     insert_attempts remote batch_records retries 0 calls"

record 'r air_load = "'r client" +
  success_count :: nat
  fail_count :: nat

fun load_batches ::
  "(int \<Rightarrow> string) \<Rightarrow> (row \<Rightarrow> row) \<Rightarrow> row remote \<Rightarrow> row list \<Rightarrow> nat \<Rightarrow> nat list
     \<Rightarrow> row air_load \<Rightarrow> py_error + row air_load" where
  "load_batches isoformat iterrows remote df n [] s = Inr s"
| "load_batches isoformat iterrows remote df n (i # rest) s =
     (case clean_records isoformat iterrows (iloc df i (i + n)) of
        Inl e \<Rightarrow> Inl e
      | Inr batch_records \<Rightarrow>
          (case insert_batch remote batch_records 2 (sent s) of
             (ok, calls) \<Rightarrow>
               load_batches isoformat iterrows remote df n rest
                 (if ok
                  then s\<lparr>sent := calls, success_count := success_count s + length batch_records\<rparr>
                  else s\<lparr>sent := calls, fail_count := fail_count s + length batch_records\<rparr>)))"

definition air_load_to_supabase ::
  "(int \<Rightarrow> string) \<Rightarrow> (row \<Rightarrow> row) \<Rightarrow> row remote \<Rightarrow> row list \<Rightarrow> py_error + row air_load" where
  \<comment> \<open>\<open>load_to_supabase\<close> of the air-quality loader, from the frame it has read and whose
      \<open>time\<close> column it has parsed; the result holds the two counts it returns.\<close>
  "air_load_to_supabase isoformat iterrows remote df =
     load_batches isoformat iterrows remote df BATCH_SIZE (range_from 0 (length df) BATCH_SIZE)
       \<lparr>sent = [], success_count = 0, fail_count = 0\<rparr>"

subsection \<open>Churn loader (\<open>ETL_PIPELINE/scripts/load.py\<close>)\<close>

text \<open>The churn loader reports by printing; \<open>printed\<close> is what it has printed so far.\<close>

datatype event =
    Inserted nat nat nat
  | ErrorInserting nat
  | Retrying nat nat
  | FailedSkipping
  | Finished

record 'r churn_load = "'r client" +
  printed :: "event list"

definition insert_fails :: "'r response \<Rightarrow> bool" where
  \<comment> \<open>the \<open>try\<close> body raises: the call itself, or
      \<open>hasattr(response, "error") and response.error\<close> (a non-empty error payload)\<close>
  "insert_fails r =
     (case r of Raises e \<Rightarrow> True
      | Returns d e \<Rightarrow> (case e of None \<Rightarrow> False | Some m \<Rightarrow> m \<noteq> []))"

function retry_loop ::
  "'r remote \<Rightarrow> nat \<Rightarrow> nat \<Rightarrow> nat \<Rightarrow> 'r list \<Rightarrow> nat \<Rightarrow> nat \<Rightarrow> 'r churn_load \<Rightarrow> 'r churn_load" where
  "retry_loop remote start batch_size total_rows records max_retries retry s =
     (if retry < max_retries then
        (if insert_fails (remote (length (sent s)) records) then
           (if retry < max_retries - 1 then
              retry_loop remote start batch_size total_rows records max_retries (retry + 1)
                (s\<lparr>sent := sent s @ [records],
                   printed := printed s @ [ErrorInserting (start div batch_size + 1),
                                           Retrying (retry + 1) max_retries]\<rparr>)
            else
              s\<lparr>sent := sent s @ [records],
                printed := printed s @ [ErrorInserting (start div batch_size + 1),
                                        FailedSkipping]\<rparr>)
         else
           s\<lparr>sent := sent s @ [records],
             printed := printed s @ [Inserted (start + 1) (min (start + batch_size) total_rows)
                                      total_rows]\<rparr>)
      else s)"
  by pat_completeness auto
termination
  by (relation "measure (\<lambda>(remote, start, batch_size, total_rows, records, max_retries, retry, s).
        max_retries - retry)") auto

declare retry_loop.simps [simp del]

fun load_chunks ::
  "'r remote \<Rightarrow> 'r list \<Rightarrow> nat \<Rightarrow> nat \<Rightarrow> nat list \<Rightarrow> 'r churn_load \<Rightarrow> 'r churn_load" where
  "load_chunks remote df batch_size max_retries [] s = s"
| "load_chunks remote df batch_size max_retries (start # rest) s =
     load_chunks remote df batch_size max_retries rest
       (retry_loop remote start batch_size (length df)
          (iloc df start (start + batch_size)) max_retries 0 s)"

definition churn_load_to_supabase :: "'r remote \<Rightarrow> 'r list \<Rightarrow> 'r churn_load" where
  \<comment> \<open>\<open>load_to_supabase\<close> of the churn loader, from the frame it has read:
      \<open>batch_size = 200\<close>, \<open>max_retries = 3\<close>, and the closing print.\<close>
  "churn_load_to_supabase remote df =
     (let s = load_chunks remote df 200 3 (range_from 0 (length df) 200)
                \<lparr>sent = [], printed = []\<rparr>
      in s\<lparr>printed := printed s @ [Finished]\<rparr>)"

fun is_outcome :: "event \<Rightarrow> bool" where
  \<comment> \<open>the two prints that close a chunk: inserted, or failed after retries\<close>
  "is_outcome (Inserted a b c) = True"
| "is_outcome FailedSkipping = True"
| "is_outcome e = False"

section \<open>The transforms\<close>

subsection \<open>Churn transform (\<open>ETL_PIPELINE/scripts/transform.py\<close>)\<close>

text \<open>
  A frame is a dict from column names to columns.  \<open>to_numeric\<close> is
  \<open>pd.to_numeric(errors='coerce')\<close> on one cell; the parsing of a numeric string is a
  library function and a parameter here.
\<close>

type_synonym frame = "string \<rightharpoonup> pyval list"

definition isna :: "pyval \<Rightarrow> bool" where
  "isna v = (v = PNone \<or> v = PNaN \<or> v = PNaT)"

definition to_numeric :: "(string \<Rightarrow> real option) \<Rightarrow> pyval \<Rightarrow> pyval" where
  "to_numeric parse v =
     (case v of
        PFloat x \<Rightarrow> PFloat x
      | PInt i \<Rightarrow> PInt i
      | PStr s \<Rightarrow> (case parse s of None \<Rightarrow> PNaN | Some x \<Rightarrow> PFloat x)
      | _ \<Rightarrow> PNaN)"

definition fillna :: "pyval \<Rightarrow> pyval list \<Rightarrow> pyval list" where
  \<comment> \<open>\<open>Series.fillna(value)\<close> with a scalar: every missing cell becomes \<open>value\<close> itself.\<close>
  "fillna v col = map (\<lambda>c. if isna c then v else c) col"

fun fill_required :: "frame \<Rightarrow> string list \<Rightarrow> py_error + frame" where
  \<comment> \<open>\<open>for col in cols: df[col].fillna(df[col].median, inplace=True)\<close>.  The argument is
      the attribute \<open>df[col].median\<close>, which is the bound method: the source does not call it.\<close>
  "fill_required df [] = Inr df"
| "fill_required df (col # cols) =
     (case df col of
        None \<Rightarrow> Inl KeyError
      | Some c \<Rightarrow> fill_required (df(col \<mapsto> fillna (PMethod ''Series.median'') c)) cols)"

definition fill_missing :: "(string \<Rightarrow> real option) \<Rightarrow> frame \<Rightarrow> py_error + frame" where
  "fill_missing parse df =
     (case df ''TotalCharges'' of
        None \<Rightarrow> Inl KeyError
      | Some c \<Rightarrow>
          fill_required (df(''TotalCharges'' \<mapsto> map (to_numeric parse) c))
            [''tenure'', ''MonthlyCharges'', ''TotalCharges''])"

text \<open>
  What calling the method would give: \<open>Series.median()\<close>, the median of the cells that are
  not missing (the mean of the two middle ones when their number is even).
\<close>

fun numbers :: "pyval list \<Rightarrow> real list" where
  "numbers [] = []"
| "numbers (PFloat x # vs) = x # numbers vs"
| "numbers (PInt i # vs) = real_of_int i # numbers vs"
| "numbers (v # vs) = numbers vs"

definition series_median :: "pyval list \<Rightarrow> real option" where
  "series_median col =
     (let xs = sort (numbers col); n = length xs in
      if n = 0 then None
      else if odd n then Some (xs ! (n div 2))
      else Some ((xs ! (n div 2 - 1) + xs ! (n div 2)) / 2))"








text \<open>
  The categorical derivations.  \<open>Series.map(dict)\<close> gives NaN (here \<open>None\<close>) for a value
  that is not a key; \<open>apply(lambda x: 1 if x == "Yes" else 0)\<close> always gives an integer.
\<close>

definition series_map :: "(string \<times> int) list \<Rightarrow> pyval \<Rightarrow> int option" where
  "series_map d v = (case v of PStr s \<Rightarrow> map_of d s | _ \<Rightarrow> None)"

definition has_internet_service :: "pyval \<Rightarrow> int option" where
  "has_internet_service InternetService =
     series_map [(''DSL'', 1), (''Fiber optic'', 1), (''No'', 0)] InternetService"

definition is_multi_line_user :: "pyval \<Rightarrow> int" where
  "is_multi_line_user MultipleLines = (if MultipleLines = PStr ''Yes'' then 1 else 0)"

definition contract_type_code :: "pyval \<Rightarrow> int option" where
  "contract_type_code Contract =
     series_map [(''Month-to-month'', 0), (''One year'', 1), (''Two year'', 2)] Contract"

subsection \<open>Air-quality transform (\<open>urban_air_pollutants/transform.py\<close>)\<close>

text \<open>
  Every row the transform builds is a dict with the same nine keys, so it is a record;
  the six pollutant columns hold JSON values first (\<open>'c = pyval\<close>) and floats after
  \<open>pd.to_numeric\<close> (\<open>'c = real option\<close>, \<open>None\<close> for NaN).
\<close>

record 'c air_row =
  city :: string
  time :: pyval
  pm10 :: 'c
  pm2_5 :: 'c
  carbon_monoxide :: 'c
  nitrogen_dioxide :: 'c
  sulphur_dioxide :: 'c
  ozone :: 'c
  uv_index :: pyval

type_synonym json_object = "(string \<times> pyval) list"
type_synonym hourly_arrays = "(string \<times> pyval list) list"

record raw_doc =
  results :: "json_object list option list option"
  hourly :: "hourly_arrays option"

text \<open>
  A document may have the key \<open>results\<close> (a list of stations, each with an optional list
  \<open>measurements\<close> of objects) and the key \<open>hourly\<close> (an object of parallel arrays).
\<close>

definition dict_get :: "(string \<times> 'v) list \<Rightarrow> string \<Rightarrow> 'v \<Rightarrow> 'v" where
  \<comment> \<open>\<open>d.get(k, default)\<close>\<close>
  "dict_get d k dflt = (case map_of d k of None \<Rightarrow> dflt | Some v \<Rightarrow> v)"

definition py_index :: "'a list \<Rightarrow> nat \<Rightarrow> py_error + 'a" where
  \<comment> \<open>\<open>xs[i]\<close> for \<open>i \<ge> 0\<close>\<close>
  "py_index xs i = (if i < length xs then Inr (xs ! i) else Inl IndexError)"

definition and_then :: "py_error + 'a \<Rightarrow> ('a \<Rightarrow> py_error + 'b) \<Rightarrow> py_error + 'b" where
  "and_then r f = (case r of Inl e \<Rightarrow> Inl e | Inr v \<Rightarrow> f v)"

definition measurement_row :: "string \<Rightarrow> json_object \<Rightarrow> pyval air_row" where
  "measurement_row city_name m =
     (let pollutant = dict_get m ''parameter'' PNone;
          val = dict_get m ''value'' PNone
      in \<lparr>city = city_name,
          time = dict_get m ''lastUpdated'' PNone,
          pm10 = (if pollutant = PStr ''pm10'' then val else PNone),
          pm2_5 = (if pollutant = PStr ''pm25'' \<or> pollutant = PStr ''pm2.5'' then val else PNone),
          carbon_monoxide = (if pollutant = PStr ''co'' then val else PNone),
          nitrogen_dioxide = (if pollutant = PStr ''no2'' then val else PNone),
          sulphur_dioxide = (if pollutant = PStr ''so2'' then val else PNone),
          ozone = (if pollutant = PStr ''o3'' then val else PNone),
          uv_index = PNone\<rparr>)"

definition station_rows :: "string \<Rightarrow> json_object list option \<Rightarrow> pyval air_row list" where
  \<comment> \<open>\<open>station.get("measurements", [])\<close>\<close>
  "station_rows city_name station =
     map (measurement_row city_name) (case station of None \<Rightarrow> [] | Some ms \<Rightarrow> ms)"

definition hourly_row :: "string \<Rightarrow> hourly_arrays \<Rightarrow> pyval list \<Rightarrow> nat \<Rightarrow> py_error + pyval air_row" where
  \<comment> \<open>the dict display is evaluated entry by entry; the first failing index raises\<close>
  "hourly_row city_name h times_list i =
     and_then (py_index times_list i) (\<lambda>t.
     and_then (py_index (dict_get h ''pm10'' [PNone]) i) (\<lambda>v1.
     and_then (py_index (dict_get h ''pm2_5'' [PNone]) i) (\<lambda>v2.
     and_then (py_index (dict_get h ''carbon_monoxide'' [PNone]) i) (\<lambda>v3.
     and_then (py_index (dict_get h ''nitrogen_dioxide'' [PNone]) i) (\<lambda>v4.
     and_then (py_index (dict_get h ''sulphur_dioxide'' [PNone]) i) (\<lambda>v5.
     and_then (py_index (dict_get h ''ozone'' [PNone]) i) (\<lambda>v6.
     and_then (if map_of h ''uv_index'' \<noteq> None
               then py_index (dict_get h ''uv_index'' [PNone]) i else Inr PNone) (\<lambda>uv.
     Inr \<lparr>city = city_name, time = t, pm10 = v1, pm2_5 = v2, carbon_monoxide = v3,
          nitrogen_dioxide = v4, sulphur_dioxide = v5, ozone = v6, uv_index = uv\<rparr>))))))))"

fun hourly_loop ::
  "string \<Rightarrow> hourly_arrays \<Rightarrow> pyval list \<Rightarrow> nat list \<Rightarrow> py_error + pyval air_row list" where
  "hourly_loop city_name h times_list [] = Inr []"
| "hourly_loop city_name h times_list (i # rest) =
     and_then (hourly_row city_name h times_list i) (\<lambda>r.
     and_then (hourly_loop city_name h times_list rest) (\<lambda>rs. Inr (r # rs)))"

definition hourly_rows :: "string \<Rightarrow> hourly_arrays \<Rightarrow> py_error + pyval air_row list" where
  \<comment> \<open>\<open>times = hourly.get("time", [])\<close>, \<open>for i in range(len(times))\<close>\<close>
  "hourly_rows city_name h =
     (let times_list = dict_get h ''time'' [] in
      hourly_loop city_name h times_list [0 ..< length times_list])"

definition normalize_doc :: "string \<Rightarrow> raw_doc \<Rightarrow> py_error + pyval air_row list" where
  \<comment> \<open>the rows one document adds to \<open>all_rows\<close>; an unknown structure adds none\<close>
  "normalize_doc city_name raw =
     (case results raw of
        Some stations \<Rightarrow> Inr (concat (map (station_rows city_name) stations))
      | None \<Rightarrow>
          (case hourly raw of
             Some h \<Rightarrow> hourly_rows city_name h
           | None \<Rightarrow> Inr []))"

text \<open>
  Feature engineering.  A float is \<open>real option\<close> with \<open>None\<close> for NaN: arithmetic
  with NaN gives NaN and every comparison with NaN is false.  The other floats are
  idealised as real numbers: the rounding of doubles and the infinities are not modelled.
\<close>

definition coerce_float :: "(string \<Rightarrow> real option) \<Rightarrow> pyval \<Rightarrow> real option" where
  \<comment> \<open>\<open>pd.to_numeric(errors="coerce")\<close> into a float column\<close>
  "coerce_float parse v =
     (case v of
        PFloat x \<Rightarrow> Some x
      | PInt i \<Rightarrow> Some (real_of_int i)
      | PStr s \<Rightarrow> parse s
      | _ \<Rightarrow> None)"

definition fmul :: "real option \<Rightarrow> real \<Rightarrow> real option" where
  "fmul a k = (case a of None \<Rightarrow> None | Some x \<Rightarrow> Some (x * k))"

definition fadd :: "real option \<Rightarrow> real option \<Rightarrow> real option" where
  "fadd a b = (case a of None \<Rightarrow> None | Some x \<Rightarrow> (case b of None \<Rightarrow> None | Some y \<Rightarrow> Some (x + y)))"

definition fgt :: "real option \<Rightarrow> real \<Rightarrow> bool" where
  "fgt a k = (case a of None \<Rightarrow> False | Some x \<Rightarrow> x > k)"

definition fle :: "real option \<Rightarrow> real \<Rightarrow> bool" where
  "fle a k = (case a of None \<Rightarrow> False | Some x \<Rightarrow> x \<le> k)"

definition categorize_aqi :: "real option \<Rightarrow> string option" where
  "categorize_aqi v =
     (if v = None then None
      else if fle v 50 then Some ''Good''
      else if fle v 100 then Some ''Moderate''
      else if fle v 200 then Some ''Unhealthy''
      else if fle v 300 then Some ''Very Unhealthy''
      else Some ''Hazardous'')"

definition compute_severity :: "real option air_row \<Rightarrow> real option" where
  "compute_severity row =
     fadd (fadd (fadd (fadd (fadd (fmul (pm2_5 row) 5) (fmul (pm10 row) 3))
       (fmul (nitrogen_dioxide row) 4)) (fmul (sulphur_dioxide row) 4))
       (fmul (carbon_monoxide row) 2)) (fmul (ozone row) 3)"

definition classify_risk :: "real option \<Rightarrow> string" where
  "classify_risk severity =
     (if fgt severity 400 then ''High Risk''
      else if fgt severity 200 then ''Moderate Risk''
      else ''Low Risk'')"

record enriched_row = "real option air_row" +
  aqi_category :: "string option"
  severity_score :: "real option"
  risk_flag :: string

definition all_missing :: "pyval air_row \<Rightarrow> bool" where
  \<comment> \<open>the rows \<open>dropna(subset=pollutant_cols, how="all")\<close> removes\<close>
  "all_missing r =
     (isna (pm10 r) \<and> isna (pm2_5 r) \<and> isna (carbon_monoxide r) \<and> isna (nitrogen_dioxide r)
      \<and> isna (sulphur_dioxide r) \<and> isna (ozone r))"

definition numeric_row :: "(string \<Rightarrow> real option) \<Rightarrow> pyval air_row \<Rightarrow> real option air_row" where
  "numeric_row parse r =
     \<lparr>city = city r, time = time r,
      pm10 = coerce_float parse (pm10 r),
      pm2_5 = coerce_float parse (pm2_5 r),
      carbon_monoxide = coerce_float parse (carbon_monoxide r),
      nitrogen_dioxide = coerce_float parse (nitrogen_dioxide r),
      sulphur_dioxide = coerce_float parse (sulphur_dioxide r),
      ozone = coerce_float parse (ozone r),
      uv_index = uv_index r\<rparr>"

definition enrich :: "real option air_row \<Rightarrow> enriched_row" where
  \<comment> \<open>\<open>aqi_category\<close>, \<open>severity_score\<close> and \<open>risk_flag\<close>, each from the columns before it\<close>
  "enrich row =
     (let severity = compute_severity row in
      air_row.extend row
        \<lparr>aqi_category = categorize_aqi (pm2_5 row),
         severity_score = severity,
         risk_flag = classify_risk severity\<rparr>)"

definition feature_engineering :: "(string \<Rightarrow> real option) \<Rightarrow> pyval air_row list \<Rightarrow> enriched_row list" where
  \<comment> \<open>\<open>run_transform\<close> from a non-empty \<open>all_rows\<close> on (with no row collected,
      \<open>dropna\<close> raises \<open>KeyError\<close>); the parsing of \<open>time\<close> and the \<open>hour\<close> column are
      left out\<close>
  "feature_engineering parse all_rows =
     map (\<lambda>r. enrich (numeric_row parse r)) (filter (\<lambda>r. \<not> all_missing r) all_rows)"

section \<open>Batching properties\<close>

lemma concat_slices:
  "0 < n \<Longrightarrow>
   concat (map (\<lambda>s. iloc df s (s + n)) (range_from start (length df) n)) = drop start df"
proof (induction start "length df" n rule: range_from.induct)
  case (1 start step)
  show ?case
  proof (cases "length df \<le> start")
    case True
    then show ?thesis by (simp add: range_from.simps [of start])
  next
    case False
    with 1 have ih: "concat (map (\<lambda>s. iloc df s (s + step))
        (range_from (start + step) (length df) step)) = drop (start + step) df"
      by simp
    have "take step (drop start df) @ drop (start + step) df = drop start df"
      by (metis add.commute append_take_drop_id drop_drop)
    with False 1(2) ih show ?thesis
      by (simp add: range_from.simps [of start] iloc_def)
  qed
qed

lemma slices_length:
  "0 < n \<Longrightarrow> s \<in> set (range_from start (length df) n) \<Longrightarrow>
   1 \<le> length (iloc df s (s + n)) \<and> length (iloc df s (s + n)) \<le> n"
proof (induction start "length df" n rule: range_from.induct)
  case (1 start step)
  show ?case
  proof (cases "length df \<le> start")
    case True
    with 1(3) show ?thesis by (simp add: range_from.simps [of start])
  next
    case False
    with 1(3) have "s = start \<or> s \<in> set (range_from (start + step) (length df) step)"
      by (simp add: range_from.simps [of start] split: if_splits)
    then show ?thesis
    proof
      assume "s = start"
      with False 1(2) show ?thesis by (simp add: iloc_def)
    next
      assume "s \<in> set (range_from (start + step) (length df) step)"
      with 1 False show ?thesis by simp
    qed
  qed
qed

lemma slices_butlast_full:
  "0 < n \<Longrightarrow>
   c \<in> set (butlast (map (\<lambda>s. iloc df s (s + n)) (range_from start (length df) n))) \<Longrightarrow>
   length c = n"
proof (induction start "length df" n arbitrary: c rule: range_from.induct)
  case (1 start step)
  show ?case
  proof (cases "length df \<le> start")
    case True
    with 1(3) show ?thesis by (simp add: range_from.simps [of start])
  next
    case False
    note nonempty = this
    show ?thesis
    proof (cases "length df \<le> start + step")
      case True
      then have "range_from (start + step) (length df) step = []"
        by (simp add: range_from.simps [of "start + step"])
      with nonempty 1(2,3) show ?thesis
        by (simp add: range_from.simps [of start])
    next
      case False
      then have ne: "range_from (start + step) (length df) step \<noteq> []"
        using 1(2) by (simp add: range_from.simps [of "start + step"])
      from 1(3) nonempty 1(2) ne
      have "c = iloc df start (start + step) \<or>
            c \<in> set (butlast (map (\<lambda>s. iloc df s (s + step))
                   (range_from (start + step) (length df) step)))"
        by (simp add: range_from.simps [of start])
      then show ?thesis
      proof
        assume "c = iloc df start (start + step)"
        with False show ?thesis by (simp add: iloc_def)
      next
        assume "c \<in> set (butlast (map (\<lambda>s. iloc df s (s + step))
                   (range_from (start + step) (length df) step)))"
        with 1(1) [of c] nonempty 1(2) show ?thesis by simp
      qed
    qed
  qed
qed

text \<open>
  Claim C4.  For every record sequence and every positive batch size, batching succeeds,
  concatenating the chunks in chunk order gives back the original sequence (nothing lost,
  duplicated or reordered), every chunk except possibly the last has exactly
  \<open>batch_size\<close> records, and the last chunk has between 1 and \<open>batch_size\<close> records.
\<close>

theorem batch_partition:
  assumes "0 < batch_size"
  shows "\<exists>chunks. batch df batch_size = Inr chunks
           \<and> concat chunks = df
           \<and> (\<forall>c \<in> set (butlast chunks). length c = batch_size)
           \<and> (chunks \<noteq> [] \<longrightarrow> 1 \<le> length (last chunks) \<and> length (last chunks) \<le> batch_size)"
proof -
  let ?starts = "range_from 0 (length df) batch_size"
  let ?chunks = "map (\<lambda>start. iloc df start (start + batch_size)) ?starts"
  have ret: "batch df batch_size = Inr ?chunks"
    using assms by (simp add: batch_def py_range_def)
  have cat: "concat ?chunks = df"
    using concat_slices [OF assms, of df 0] by simp
  have full: "\<forall>c \<in> set (butlast ?chunks). length c = batch_size"
    using slices_butlast_full [OF assms] by blast
  have lst: "?chunks \<noteq> [] \<longrightarrow> 1 \<le> length (last ?chunks) \<and> length (last ?chunks) \<le> batch_size"
  proof
    assume ne: "?chunks \<noteq> []"
    then have "?starts \<noteq> []" by simp
    then have "last ?starts \<in> set ?starts" by simp
    from slices_length [OF assms this]
    show "1 \<le> length (last ?chunks) \<and> length (last ?chunks) \<le> batch_size"
      using \<open>?starts \<noteq> []\<close> by (simp add: last_map)
  qed
  from ret cat full lst show ?thesis by blast
qed

theorem batch_partition_witness:
  "(0::nat) < 2
   \<and> batch [10, 20, 30, 40, 50 :: int] 2 = Inr [[10, 20], [30, 40], [50]]
   \<and> (\<exists>chunks. batch [10, 20, 30, 40, 50 :: int] 2 = Inr chunks
           \<and> concat chunks = [10, 20, 30, 40, 50]
           \<and> (\<forall>c \<in> set (butlast chunks). length c = 2)
           \<and> (chunks \<noteq> [] \<longrightarrow> 1 \<le> length (last chunks) \<and> length (last chunks) \<le> 2))"
proof -
  have h: "(0::nat) < 2" by simp
  have e: "batch [10, 20, 30, 40, 50 :: int] 2 = Inr [[10, 20], [30, 40], [50]]"
    by (simp add: batch_def py_range_def range_from.simps iloc_def)
  from h e batch_partition [OF h, of "[10, 20, 30, 40, 50 :: int]"] show ?thesis by blast
qed

section \<open>Retry loops\<close>

lemma insert_attempts_all_fail:
  "(\<forall>k. k < retries + 1 - attempt \<longrightarrow> \<not> has_data (remote (length calls + k) recs)) \<Longrightarrow>
   insert_attempts remote recs retries attempt calls
     = (False, calls @ replicate (retries + 1 - attempt) recs)"
proof (induction remote recs retries attempt calls rule: insert_attempts.induct)
  case (1 remote recs retries attempt calls)
  show ?case
  proof (cases "attempt < retries + 1")
    case False
    then show ?thesis by (simp add: insert_attempts.simps [of _ _ _ attempt])
  next
    case True
    from 1(2) True have nd: "\<not> has_data (remote (length calls) recs)"
      by (metis add.right_neutral zero_less_diff)
    have "\<forall>k. k < retries + 1 - (attempt + 1) \<longrightarrow>
            \<not> has_data (remote (length (calls @ [recs]) + k) recs)"
    proof (intro allI impI)
      fix k assume "k < retries + 1 - (attempt + 1)"
      then have "Suc k < retries + 1 - attempt" by arith
      with 1(2) have "\<not> has_data (remote (length calls + Suc k) recs)" by blast
      then show "\<not> has_data (remote (length (calls @ [recs]) + k) recs)" by simp
    qed
    from 1(1) [OF True nd this]
    have "insert_attempts remote recs retries (attempt + 1) (calls @ [recs])
            = (False, (calls @ [recs]) @ replicate (retries + 1 - (attempt + 1)) recs)" .
    moreover have "replicate (retries + 1 - attempt) recs
                     = recs # replicate (retries + 1 - (attempt + 1)) recs"
      using True by (cases "retries + 1 - attempt") auto
    ultimately show ?thesis
      using True nd by (simp add: insert_attempts.simps [of _ _ _ attempt])
  qed
qed

lemma insert_attempts_first_success:
  "attempt + j < retries + 1 \<Longrightarrow>
   (\<forall>k<j. \<not> has_data (remote (length calls + k) recs)) \<Longrightarrow>
   has_data (remote (length calls + j) recs) \<Longrightarrow>
   insert_attempts remote recs retries attempt calls = (True, calls @ replicate (Suc j) recs)"
proof (induction j arbitrary: attempt calls)
  case 0
  then show ?case by (simp add: insert_attempts.simps [of _ _ _ attempt])
next
  case (Suc j)
  from Suc.prems(2) have nd: "\<not> has_data (remote (length calls) recs)"
    by (metis add.right_neutral zero_less_Suc)
  have a: "(attempt + 1) + j < retries + 1" using Suc.prems(1) by simp
  have b: "\<forall>k<j. \<not> has_data (remote (length (calls @ [recs]) + k) recs)"
  proof (intro allI impI)
    fix k assume "k < j"
    then have "Suc k < Suc j" by simp
    with Suc.prems(2) have "\<not> has_data (remote (length calls + Suc k) recs)" by blast
    then show "\<not> has_data (remote (length (calls @ [recs]) + k) recs)" by simp
  qed
  have c: "has_data (remote (length (calls @ [recs]) + j) recs)"
    using Suc.prems(3) by simp
  from Suc.IH [OF a b c] nd Suc.prems(1) show ?case
    by (simp add: insert_attempts.simps [of _ _ _ attempt] replicate_app_Cons_same)
qed

lemma retry_loop_all_fail:
  "retry < max_retries \<Longrightarrow>
   (\<forall>k. k < max_retries - retry \<longrightarrow> insert_fails (remote (length (sent s) + k) records)) \<Longrightarrow>
   sent (retry_loop remote start batch_size total_rows records max_retries retry s)
     = sent s @ replicate (max_retries - retry) records
   \<and> (\<exists>evs. printed (retry_loop remote start batch_size total_rows records max_retries retry s)
               = printed s @ evs @ [FailedSkipping]
             \<and> (\<forall>a b c. Inserted a b c \<notin> set evs))"
proof (induction remote start batch_size total_rows records max_retries retry s
       rule: retry_loop.induct)
  case (1 remote start batch_size total_rows records max_retries retry s)
  let ?b = "start div batch_size + 1"
  from 1(3) 1(2) have f: "insert_fails (remote (length (sent s)) records)"
    by (metis add.right_neutral zero_less_diff)
  show ?case
  proof (cases "retry < max_retries - 1")
    case False
    with 1(2) have last: "max_retries - retry = 1" by arith
    have "printed s @ [ErrorInserting ?b, FailedSkipping]
            = printed s @ [ErrorInserting ?b] @ [FailedSkipping]" by simp
    with 1(2) f False last show ?thesis
      by (simp add: retry_loop.simps [of _ _ _ _ _ _ retry]) 
  next
    case True
    let ?s2 = "s\<lparr>sent := sent s @ [records],
                  printed := printed s @ [ErrorInserting ?b, Retrying (retry + 1) max_retries]\<rparr>"
    have lt: "retry + 1 < max_retries" using True by arith
    have fl: "\<forall>k. k < max_retries - (retry + 1) \<longrightarrow>
                insert_fails (remote (length (sent ?s2) + k) records)"
    proof (intro allI impI)
      fix k assume "k < max_retries - (retry + 1)"
      then have "Suc k < max_retries - retry" by arith
      with 1(3) have "insert_fails (remote (length (sent s) + Suc k) records)" by blast
      then show "insert_fails (remote (length (sent ?s2) + k) records)" by simp
    qed
    from 1(1) [OF 1(2) f True lt fl]
    obtain evs where
      s2: "sent (retry_loop remote start batch_size total_rows records max_retries (retry + 1) ?s2)
             = sent ?s2 @ replicate (max_retries - (retry + 1)) records"
      and p2: "printed (retry_loop remote start batch_size total_rows records max_retries
                 (retry + 1) ?s2) = printed ?s2 @ evs @ [FailedSkipping]"
      and ni: "\<forall>a b c. Inserted a b c \<notin> set evs"
      by blast
    have step: "retry_loop remote start batch_size total_rows records max_retries retry s
                  = retry_loop remote start batch_size total_rows records max_retries (retry + 1) ?s2"
      using 1(2) f True by (simp add: retry_loop.simps [of _ _ _ _ _ _ retry])
    have rep: "replicate (max_retries - retry) records
                 = records # replicate (max_retries - (retry + 1)) records"
      using 1(2) by (cases "max_retries - retry") auto
    have "sent (retry_loop remote start batch_size total_rows records max_retries retry s)
            = sent s @ replicate (max_retries - retry) records"
      using step s2 rep by simp
    moreover have "printed (retry_loop remote start batch_size total_rows records max_retries retry s)
            = printed s @ ([ErrorInserting ?b, Retrying (retry + 1) max_retries] @ evs)
                @ [FailedSkipping]"
      using step p2 by simp
    moreover have "\<forall>a b c. Inserted a b c
                     \<notin> set ([ErrorInserting ?b, Retrying (retry + 1) max_retries] @ evs)"
      using ni by simp
    ultimately show ?thesis by blast
  qed
qed

lemma retry_loop_first_success:
  "retry + j < max_retries \<Longrightarrow>
   (\<forall>k<j. insert_fails (remote (length (sent s) + k) records)) \<Longrightarrow>
   \<not> insert_fails (remote (length (sent s) + j) records) \<Longrightarrow>
   sent (retry_loop remote start batch_size total_rows records max_retries retry s)
     = sent s @ replicate (Suc j) records
   \<and> (\<exists>evs. printed (retry_loop remote start batch_size total_rows records max_retries retry s)
               = printed s @ evs
                   @ [Inserted (start + 1) (min (start + batch_size) total_rows) total_rows]
             \<and> FailedSkipping \<notin> set evs)"
proof (induction j arbitrary: retry s)
  case 0
  then show ?case by (simp add: retry_loop.simps [of _ _ _ _ _ _ retry])
next
  case (Suc j)
  let ?b = "start div batch_size + 1"
  let ?s2 = "s\<lparr>sent := sent s @ [records],
                printed := printed s @ [ErrorInserting ?b, Retrying (retry + 1) max_retries]\<rparr>"
  from Suc.prems(2) have f: "insert_fails (remote (length (sent s)) records)"
    by (metis add.right_neutral zero_less_Suc)
  have lt: "retry < max_retries" "retry < max_retries - 1" using Suc.prems(1) by arith+
  have a: "(retry + 1) + j < max_retries" using Suc.prems(1) by simp
  have b: "\<forall>k<j. insert_fails (remote (length (sent ?s2) + k) records)"
  proof (intro allI impI)
    fix k assume "k < j"
    then have "Suc k < Suc j" by simp
    with Suc.prems(2) have "insert_fails (remote (length (sent s) + Suc k) records)" by blast
    then show "insert_fails (remote (length (sent ?s2) + k) records)" by simp
  qed
  have c: "\<not> insert_fails (remote (length (sent ?s2) + j) records)"
    using Suc.prems(3) by simp
  from Suc.IH [OF a b c] obtain evs where
    s2: "sent (retry_loop remote start batch_size total_rows records max_retries (retry + 1) ?s2)
           = sent ?s2 @ replicate (Suc j) records"
    and p2: "printed (retry_loop remote start batch_size total_rows records max_retries
               (retry + 1) ?s2)
           = printed ?s2 @ evs
               @ [Inserted (start + 1) (min (start + batch_size) total_rows) total_rows]"
    and nf: "FailedSkipping \<notin> set evs"
    by blast
  have step: "retry_loop remote start batch_size total_rows records max_retries retry s
                = retry_loop remote start batch_size total_rows records max_retries (retry + 1) ?s2"
    using lt f by (simp add: retry_loop.simps [of _ _ _ _ _ _ retry])
  have "sent (retry_loop remote start batch_size total_rows records max_retries retry s)
          = sent s @ replicate (Suc (Suc j)) records"
    using step s2 by simp
  moreover have "printed (retry_loop remote start batch_size total_rows records max_retries retry s)
          = printed s @ ([ErrorInserting ?b, Retrying (retry + 1) max_retries] @ evs)
              @ [Inserted (start + 1) (min (start + batch_size) total_rows) total_rows]"
    using step p2 by simp
  moreover have "FailedSkipping \<notin> set ([ErrorInserting ?b, Retrying (retry + 1) max_retries] @ evs)"
    using nf by simp
  ultimately show ?case by blast
qed

lemma retry_loop_outcome:
  "retry < max_retries \<Longrightarrow>
   \<exists>m evs. 1 \<le> m \<and> m \<le> max_retries - retry
     \<and> sent (retry_loop remote start batch_size total_rows records max_retries retry s)
         = sent s @ replicate m records
     \<and> printed (retry_loop remote start batch_size total_rows records max_retries retry s)
         = printed s @ evs
     \<and> length (filter is_outcome evs) = 1"
proof (induction remote start batch_size total_rows records max_retries retry s
       rule: retry_loop.induct)
  case (1 remote start batch_size total_rows records max_retries retry s)
  let ?b = "start div batch_size + 1"
  let ?res = "retry_loop remote start batch_size total_rows records max_retries retry s"
  have one: "(1::nat) \<le> max_retries - retry" using 1(2) by arith
  show ?case
  proof (cases "insert_fails (remote (length (sent s)) records)")
    case False
    let ?evs = "[Inserted (start + 1) (min (start + batch_size) total_rows) total_rows]"
    from False 1(2) have "sent ?res = sent s @ replicate 1 records"
      and "printed ?res = printed s @ ?evs"
      by (simp_all add: retry_loop.simps [of _ _ _ _ _ _ retry])
    moreover have "length (filter is_outcome ?evs) = 1" by simp
    ultimately show ?thesis using one by blast
  next
    case True
    note f = this
    show ?thesis
    proof (cases "retry < max_retries - 1")
      case False
      let ?evs = "[ErrorInserting ?b, FailedSkipping]"
      from False f 1(2) have "sent ?res = sent s @ replicate 1 records"
        and "printed ?res = printed s @ ?evs"
        by (simp_all add: retry_loop.simps [of _ _ _ _ _ _ retry])
      moreover have "length (filter is_outcome ?evs) = 1" by simp
      ultimately show ?thesis using one by blast
    next
      case True
      let ?s2 = "s\<lparr>sent := sent s @ [records],
                    printed := printed s @ [ErrorInserting ?b, Retrying (retry + 1) max_retries]\<rparr>"
      have lt: "retry + 1 < max_retries" using True by arith
      from 1(1) [OF 1(2) f True lt] obtain m evs where
        m: "1 \<le> m" "m \<le> max_retries - (retry + 1)"
        and s2: "sent (retry_loop remote start batch_size total_rows records max_retries
                   (retry + 1) ?s2) = sent ?s2 @ replicate m records"
        and p2: "printed (retry_loop remote start batch_size total_rows records max_retries
                   (retry + 1) ?s2) = printed ?s2 @ evs"
        and o2: "length (filter is_outcome evs) = 1"
        by blast
      have step: "?res = retry_loop remote start batch_size total_rows records max_retries
                           (retry + 1) ?s2"
        using 1(2) f True by (simp add: retry_loop.simps [of _ _ _ _ _ _ retry])
      have "sent ?res = sent s @ replicate (Suc m) records" using step s2 by simp
      moreover have "printed ?res
              = printed s @ ([ErrorInserting ?b, Retrying (retry + 1) max_retries] @ evs)"
        using step p2 by simp
      moreover have "length (filter is_outcome
              ([ErrorInserting ?b, Retrying (retry + 1) max_retries] @ evs)) = 1"
        using o2 by simp
      moreover have "1 \<le> Suc m" "Suc m \<le> max_retries - retry" using m lt by arith+
      ultimately show ?thesis by blast
    qed
  qed
qed

section \<open>Load loops\<close>

lemma insert_attempts_outcome:
  "attempt < retries + 1 \<Longrightarrow>
   \<exists>m ok. 1 \<le> m \<and> m \<le> retries + 1 - attempt
     \<and> insert_attempts remote recs retries attempt calls = (ok, calls @ replicate m recs)
     \<and> (\<not> ok \<longrightarrow> m = retries + 1 - attempt)"
proof (induction remote recs retries attempt calls rule: insert_attempts.induct)
  case (1 remote recs retries attempt calls)
  have one: "(1::nat) \<le> retries + 1 - attempt" using 1(2) by arith
  show ?case
  proof (cases "has_data (remote (length calls) recs)")
    case True
    with 1(2) have "insert_attempts remote recs retries attempt calls
                      = (True, calls @ replicate 1 recs)"
      by (simp add: insert_attempts.simps [of _ _ _ attempt])
    with one show ?thesis by blast
  next
    case False
    note nd = this
    have step: "insert_attempts remote recs retries attempt calls
                  = insert_attempts remote recs retries (attempt + 1) (calls @ [recs])"
      using 1(2) nd by (simp add: insert_attempts.simps [of _ _ _ attempt])
    show ?thesis
    proof (cases "attempt + 1 < retries + 1")
      case False
      then have "insert_attempts remote recs retries (attempt + 1) (calls @ [recs])
                   = (False, calls @ [recs])"
        by (subst insert_attempts.simps) simp
      with step have r1: "insert_attempts remote recs retries attempt calls
                        = (False, calls @ replicate 1 recs)" by simp
      have e: "retries + 1 - attempt = 1" using False 1(2) by arith
      have "(1::nat) \<le> 1 \<and> 1 \<le> retries + 1 - attempt
              \<and> insert_attempts remote recs retries attempt calls
                  = (False, calls @ replicate 1 recs)
              \<and> (\<not> False \<longrightarrow> 1 = retries + 1 - attempt)"
        using r1 e by simp
      then show ?thesis by blast
    next
      case True
      from 1(1) [OF 1(2) nd True] obtain m ok where
        m: "1 \<le> m" "m \<le> retries + 1 - (attempt + 1)"
        and r: "insert_attempts remote recs retries (attempt + 1) (calls @ [recs])
                  = (ok, (calls @ [recs]) @ replicate m recs)"
        and f: "\<not> ok \<longrightarrow> m = retries + 1 - (attempt + 1)"
        by blast
      have "insert_attempts remote recs retries attempt calls
              = (ok, calls @ replicate (Suc m) recs)"
        using step r by simp
      moreover have "1 \<le> Suc m" "Suc m \<le> retries + 1 - attempt" using m True by arith+
      moreover have "\<not> ok \<longrightarrow> Suc m = retries + 1 - attempt" using f True by arith
      ultimately show ?thesis by blast
    qed
  qed
qed

lemma insert_batch_outcome:
  "\<exists>m ok. 1 \<le> m \<and> m \<le> retries + 1
     \<and> insert_batch remote recs retries calls = (ok, calls @ replicate m recs)
     \<and> (\<not> ok \<longrightarrow> m = retries + 1)"
  using insert_attempts_outcome [of 0 retries remote recs calls]
  by (simp add: insert_batch_def)

lemma clean_record_total:
  "row ''time'' \<noteq> None \<Longrightarrow> \<exists>c. clean_record isoformat row = Inr c"
  by (auto simp: clean_record_def Let_def split: option.splits pyval.splits)

lemma clean_records_length:
  "clean_records isoformat iterrows rows = Inr cs \<Longrightarrow> length cs = length rows"
  by (induction rows arbitrary: cs) (auto split: sum.splits)

lemma clean_records_total:
  "\<forall>r \<in> set rows. iterrows r ''time'' \<noteq> None \<Longrightarrow>
   \<exists>cs. clean_records isoformat iterrows rows = Inr cs"
proof (induction rows)
  case Nil
  then show ?case by simp
next
  case (Cons r rows)
  from Cons.prems obtain c where c: "clean_record isoformat (iterrows r) = Inr c"
    using clean_record_total [of "iterrows r" isoformat] by auto
  from Cons obtain cs where cs: "clean_records isoformat iterrows rows = Inr cs"
    by auto
  from c cs show ?case by simp
qed

lemma clean_records_replicate:
  "clean_record isoformat (iterrows r) = Inr c \<Longrightarrow>
   clean_records isoformat iterrows (replicate k r) = Inr (replicate k c)"
  by (induction k) simp_all

lemma set_iloc: "set (iloc df a b) \<subseteq> set df"
  unfolding iloc_def by (meson set_take_subset set_drop_subset subset_trans)

lemma slices_total_length:
  "0 < n \<Longrightarrow>
   sum_list (map (\<lambda>i. length (iloc df i (i + n))) (range_from 0 (length df) n)) = length df"
proof -
  assume n: "0 < n"
  have "length (concat (map (\<lambda>s. iloc df s (s + n)) (range_from 0 (length df) n)))
          = length df"
    using concat_slices [OF n, of df 0] by simp
  then show ?thesis by (simp add: length_concat comp_def)
qed

lemma split_counts:
  "length oks = length xs \<Longrightarrow>
   sum_list (map (\<lambda>(ok, x). if ok then f x else 0) (zip oks xs))
     + sum_list (map (\<lambda>(ok, x). if ok then 0 else f x) (zip oks xs))
   = (sum_list (map f xs) :: nat)"
  by (induction oks xs rule: list_induct2) auto

lemma sum_zip_map:
  "sum_list (map (\<lambda>(ok, c). g ok c) (zip oks (map f xs)))
     = (sum_list (map (\<lambda>(ok, i). g ok (f i)) (zip oks xs)) :: nat)"
proof (induction xs arbitrary: oks)
  case Nil
  then show ?case by simp
next
  case (Cons x xs)
  then show ?case by (cases oks) simp_all
qed

lemma load_batches_run:
  "\<forall>r \<in> set df. iterrows r ''time'' \<noteq> None \<Longrightarrow>
   \<exists>s' ns oks cs. load_batches isoformat iterrows remote df n starts s = Inr s'
      \<and> length ns = length starts \<and> length oks = length starts
      \<and> list_all2 (\<lambda>i c. clean_records isoformat iterrows (iloc df i (i + n)) = Inr c) starts cs
      \<and> (\<forall>(ok, m) \<in> set (zip oks ns). 1 \<le> m \<and> m \<le> 3 \<and> (\<not> ok \<longrightarrow> m = 3))
      \<and> sent s' = sent s @ concat (map2 replicate ns cs)
      \<and> success_count s'
          = success_count s
            + sum_list (map (\<lambda>(ok, i). if ok then length (iloc df i (i + n)) else 0)
                         (zip oks starts))
      \<and> fail_count s'
          = fail_count s
            + sum_list (map (\<lambda>(ok, i). if ok then 0 else length (iloc df i (i + n)))
                         (zip oks starts))"
proof (induction starts arbitrary: s)
  case Nil
  then show ?case by simp
next
  case (Cons i rest)
  have "\<forall>r \<in> set (iloc df i (i + n)). iterrows r ''time'' \<noteq> None"
    using Cons.prems set_iloc [of df i "i + n"] by blast
  from clean_records_total
         [where iterrows = iterrows and rows = "iloc df i (i + n)" and isoformat = isoformat,
          OF this]
  obtain c where
    c: "clean_records isoformat iterrows (iloc df i (i + n)) = Inr c"
    by blast
  from insert_batch_outcome [of 2 remote c "sent s"] obtain m ok where
    m: "1 \<le> m" "m \<le> 3"
    and ib: "insert_batch remote c 2 (sent s) = (ok, sent s @ replicate m c)"
    and fl: "\<not> ok \<longrightarrow> m = 3"
    by auto
  let ?s1 = "if ok
             then s\<lparr>sent := sent s @ replicate m c, success_count := success_count s + length c\<rparr>
             else s\<lparr>sent := sent s @ replicate m c, fail_count := fail_count s + length c\<rparr>"
  from Cons.IH [where s = "?s1", OF Cons.prems] obtain s' ns oks cs where
    s': "load_batches isoformat iterrows remote df n rest ?s1 = Inr s'"
    and ns: "length ns = length rest" and oks: "length oks = length rest"
    and cs: "list_all2 (\<lambda>i c. clean_records isoformat iterrows (iloc df i (i + n)) = Inr c)
               rest cs"
    and bd: "\<forall>(ok, m) \<in> set (zip oks ns). 1 \<le> m \<and> m \<le> 3 \<and> (\<not> ok \<longrightarrow> m = 3)"
    and st: "sent s' = sent ?s1 @ concat (map2 replicate ns cs)"
    and sc: "success_count s' = success_count ?s1
               + sum_list (map (\<lambda>(ok, i). if ok then length (iloc df i (i + n)) else 0)
                            (zip oks rest))"
    and fc: "fail_count s' = fail_count ?s1
               + sum_list (map (\<lambda>(ok, i). if ok then 0 else length (iloc df i (i + n)))
                            (zip oks rest))"
    by blast
  have 1: "load_batches isoformat iterrows remote df n (i # rest) s = Inr s'"
    using c ib s' by simp
  have 2: "length (m # ns) = length (i # rest)" "length (ok # oks) = length (i # rest)"
    using ns oks by simp_all
  have 3: "list_all2 (\<lambda>i c. clean_records isoformat iterrows (iloc df i (i + n)) = Inr c)
             (i # rest) (c # cs)"
    using c cs by simp
  have 4: "\<forall>(ok, m) \<in> set (zip (ok # oks) (m # ns)). 1 \<le> m \<and> m \<le> 3 \<and> (\<not> ok \<longrightarrow> m = 3)"
    using m fl bd by simp
  have 5: "sent s' = sent s @ concat (map2 replicate (m # ns) (c # cs))"
    using st by simp
  have len: "length c = length (iloc df i (i + n))"
    using c by (rule clean_records_length)
  have 6: "success_count s' = success_count s
             + sum_list (map (\<lambda>(ok, i). if ok then length (iloc df i (i + n)) else 0)
                          (zip (ok # oks) (i # rest)))"
    using sc len by simp
  have 7: "fail_count s' = fail_count s
             + sum_list (map (\<lambda>(ok, i). if ok then 0 else length (iloc df i (i + n)))
                          (zip (ok # oks) (i # rest)))"
    using fc len by simp
  from 1 2 3 4 5 6 7 show ?case by blast
qed

lemma load_chunks_sent:
  "0 < max_retries \<Longrightarrow>
   \<exists>ns evs. length ns = length starts
      \<and> (\<forall>m \<in> set ns. 1 \<le> m \<and> m \<le> max_retries)
      \<and> sent (load_chunks remote df batch_size max_retries starts s)
          = sent s @ concat (map2 replicate ns
                               (map (\<lambda>start. iloc df start (start + batch_size)) starts))
      \<and> printed (load_chunks remote df batch_size max_retries starts s) = printed s @ evs
      \<and> length (filter is_outcome evs) = length starts"
proof (induction starts arbitrary: s)
  case Nil
  then show ?case by simp
next
  case (Cons start rest)
  let ?recs = "iloc df start (start + batch_size)"
  let ?s1 = "retry_loop remote start batch_size (length df) ?recs max_retries 0 s"
  from retry_loop_outcome [OF Cons.prems, of remote start batch_size "length df" ?recs s]
  obtain m evs where
    m: "1 \<le> m" "m \<le> max_retries"
    and s1: "sent ?s1 = sent s @ replicate m ?recs"
    and p1: "printed ?s1 = printed s @ evs"
    and o1: "length (filter is_outcome evs) = 1"
    by auto
  from Cons.IH [OF Cons.prems, of ?s1] obtain ns evs' where
    ns: "length ns = length rest"
    and bd: "\<forall>m \<in> set ns. 1 \<le> m \<and> m \<le> max_retries"
    and st: "sent (load_chunks remote df batch_size max_retries rest ?s1)
               = sent ?s1 @ concat (map2 replicate ns
                                      (map (\<lambda>start. iloc df start (start + batch_size)) rest))"
    and pr: "printed (load_chunks remote df batch_size max_retries rest ?s1) = printed ?s1 @ evs'"
    and oc: "length (filter is_outcome evs') = length rest"
    by blast
  have 1: "length (m # ns) = length (start # rest)" using ns by simp
  have 2: "\<forall>k \<in> set (m # ns). 1 \<le> k \<and> k \<le> max_retries" using m bd by simp
  have 3: "sent (load_chunks remote df batch_size max_retries (start # rest) s)
             = sent s @ concat (map2 replicate (m # ns)
                 (map (\<lambda>start. iloc df start (start + batch_size)) (start # rest)))"
    using st s1 by simp
  have 4: "printed (load_chunks remote df batch_size max_retries (start # rest) s)
             = printed s @ (evs @ evs')"
    using pr p1 by simp
  have 5: "length (filter is_outcome (evs @ evs')) = length (start # rest)"
    using o1 oc by simp
  from 1 2 3 4 5 show ?case by blast
qed

section \<open>Retry accounting\<close>

lemma insert_batch_all_fail:
  "\<forall>k<retries + 1. \<not> has_data (remote (length calls + k) recs) \<Longrightarrow>
   insert_batch remote recs retries calls = (False, calls @ replicate (retries + 1) recs)"
  using insert_attempts_all_fail
          [where attempt = 0 and retries = retries and remote = remote and calls = calls
             and recs = recs]
  by (simp add: insert_batch_def)

lemma insert_batch_first_success:
  assumes "1 \<le> N" "N \<le> retries + 1"
    and "\<forall>k<N - 1. \<not> has_data (remote (length calls + k) recs)"
    and "has_data (remote (length calls + (N - 1)) recs)"
  shows "insert_batch remote recs retries calls = (True, calls @ replicate N recs)"
proof -
  from assms(1) obtain j where N: "N = Suc j" by (cases N) auto
  from assms N have 1: "0 + j < retries + 1"
    and 2: "\<forall>k<j. \<not> has_data (remote (length calls + k) recs)"
    and 3: "has_data (remote (length calls + j) recs)"
    by simp_all
  from insert_attempts_first_success
         [where attempt = 0 and j = j and retries = retries and remote = remote
            and calls = calls and recs = recs, OF 1 2 3] N
  show ?thesis by (simp add: insert_batch_def)
qed

lemma churn_all_fail:
  assumes "0 < max_retries"
    and "\<forall>k<max_retries. insert_fails (remote (length (sent s) + k) records)"
  shows "sent (retry_loop remote start batch_size total_rows records max_retries 0 s)
           = sent s @ replicate max_retries records
         \<and> (\<exists>evs. printed (retry_loop remote start batch_size total_rows records max_retries 0 s)
                     = printed s @ evs @ [FailedSkipping]
                   \<and> (\<forall>a b c. Inserted a b c \<notin> set evs))"
proof -
  from assms(2) have 2: "\<forall>k. k < max_retries - 0
              \<longrightarrow> insert_fails (remote (length (sent s) + k) records)"
    by simp
  from retry_loop_all_fail
         [where retry = 0 and max_retries = max_retries and remote = remote and s = s
            and records = records and start = start and batch_size = batch_size
            and total_rows = total_rows, OF assms(1) 2]
  show ?thesis by simp
qed

lemma churn_first_success:
  assumes "1 \<le> M" "M \<le> max_retries"
    and "\<forall>k<M - 1. insert_fails (remote (length (sent s) + k) records)"
    and "\<not> insert_fails (remote (length (sent s) + (M - 1)) records)"
  shows "sent (retry_loop remote start batch_size total_rows records max_retries 0 s)
           = sent s @ replicate M records
         \<and> (\<exists>evs. printed (retry_loop remote start batch_size total_rows records max_retries 0 s)
                     = printed s @ evs
                         @ [Inserted (start + 1) (min (start + batch_size) total_rows) total_rows]
                   \<and> FailedSkipping \<notin> set evs)"
proof -
  from assms(1) obtain j where M: "M = Suc j" by (cases M) auto
  from assms M have 1: "0 + j < max_retries"
    and 2: "\<forall>k<j. insert_fails (remote (length (sent s) + k) records)"
    and 3: "\<not> insert_fails (remote (length (sent s) + j) records)"
    by simp_all
  from retry_loop_first_success
         [where retry = 0 and j = j and max_retries = max_retries and remote = remote
            and s = s and records = records and start = start and batch_size = batch_size
            and total_rows = total_rows, OF 1 2 3] M
  show ?thesis by simp
qed

text \<open>
  Claim C1, as amended.  The air-quality loader's \<open>insert_batch\<close> tries the insert
  \<open>retries + 1\<close> times: when every try fails it makes exactly \<open>retries + 1\<close> calls and
  returns \<open>False\<close>, and when the first success is try \<open>N \<le> retries + 1\<close> it makes exactly
  \<open>N\<close> calls and returns \<open>True\<close>.  The churn loader's retry loop tries the insert
  \<open>max_retries\<close> times (not \<open>max_retries + 1\<close>): when every try fails it makes exactly
  \<open>max_retries\<close> calls and prints the failure, and when the first success is try
  \<open>M \<le> max_retries\<close> it makes exactly \<open>M\<close> calls and prints the insertion.
\<close>

theorem retry_attempts:
  fixes remote :: "'r remote" and churn_remote :: "'q remote"
  shows
  "((\<forall>k<retries + 1. \<not> has_data (remote (length calls + k) recs)) \<longrightarrow>
      insert_batch remote recs retries calls = (False, calls @ replicate (retries + 1) recs))
   \<and> (1 \<le> N \<and> N \<le> retries + 1
        \<and> (\<forall>k<N - 1. \<not> has_data (remote (length calls + k) recs))
        \<and> has_data (remote (length calls + (N - 1)) recs) \<longrightarrow>
      insert_batch remote recs retries calls = (True, calls @ replicate N recs))
   \<and> (0 < max_retries
        \<and> (\<forall>k<max_retries. insert_fails (churn_remote (length (sent s) + k) records)) \<longrightarrow>
      sent (retry_loop churn_remote start batch_size total_rows records max_retries 0 s)
        = sent s @ replicate max_retries records
      \<and> (\<exists>evs. printed (retry_loop churn_remote start batch_size total_rows records max_retries 0 s)
                  = printed s @ evs @ [FailedSkipping]
                \<and> (\<forall>a b c. Inserted a b c \<notin> set evs)))
   \<and> (1 \<le> M \<and> M \<le> max_retries
        \<and> (\<forall>k<M - 1. insert_fails (churn_remote (length (sent s) + k) records))
        \<and> \<not> insert_fails (churn_remote (length (sent s) + (M - 1)) records) \<longrightarrow>
      sent (retry_loop churn_remote start batch_size total_rows records max_retries 0 s)
        = sent s @ replicate M records
      \<and> (\<exists>evs. printed (retry_loop churn_remote start batch_size total_rows records max_retries 0 s)
                  = printed s @ evs
                      @ [Inserted (start + 1) (min (start + batch_size) total_rows) total_rows]
                \<and> FailedSkipping \<notin> set evs))"
  (is "(?H1 \<longrightarrow> ?C1) \<and> (?H2 \<longrightarrow> ?C2) \<and> (?H3 \<longrightarrow> ?C3) \<and> (?H4 \<longrightarrow> ?C4)")
proof -
  have 1: "?H1 \<longrightarrow> ?C1" using insert_batch_all_fail by blast
  have 2: "?H2 \<longrightarrow> ?C2" using insert_batch_first_success by blast
  have 3: "?H3 \<longrightarrow> ?C3"
  proof
    assume h: ?H3
    from churn_all_fail [of max_retries churn_remote s records start batch_size total_rows] h
    show ?C3 by blast
  qed
  have 4: "?H4 \<longrightarrow> ?C4"
  proof
    assume h: ?H4
    from churn_first_success
           [of M max_retries churn_remote s records start batch_size total_rows] h
    show ?C4 by blast
  qed
  from 1 2 3 4 show ?thesis by blast
qed

theorem retry_attempts_witness:
  "insert_batch (\<lambda>k recs. Raises ''timeout'') [7 :: nat] 2 [] = (False, [[7], [7], [7]])
   \<and> insert_batch (\<lambda>k recs. if k = 1 then Returns (Some recs) None else Raises ''timeout'')
        [7 :: nat] 2 [] = (True, [[7], [7]])
   \<and> sent (retry_loop (\<lambda>k recs. Returns None (Some ''duplicate key'')) 0 200 1 [7 :: nat] 3 0
        \<lparr>sent = [], printed = []\<rparr>) = [[7], [7], [7]]
   \<and> sent (retry_loop (\<lambda>k recs. if k = 1 then Returns (Some recs) None else Raises ''timeout'')
        0 200 1 [7 :: nat] 3 0 \<lparr>sent = [], printed = []\<rparr>) = [[7], [7]]"
proof -
  let ?down = "\<lambda>(k::nat) (recs::nat list). (Raises ''timeout'' :: nat response)"
  let ?flaky = "\<lambda>(k::nat) (recs::nat list).
                  if k = 1 then Returns (Some recs) None else Raises ''timeout''"
  let ?dup = "\<lambda>(k::nat) (recs::nat list). (Returns None (Some ''duplicate key'') :: nat response)"
  let ?s0 = "\<lparr>sent = ([] :: nat list list), printed = []\<rparr>"
  have a: "\<forall>k<2 + 1. \<not> has_data (?down (length ([] :: nat list list) + k) [7])"
    by (simp add: has_data_def)
  have b: "(1::nat) \<le> 2 \<and> (2::nat) \<le> 2 + 1
        \<and> (\<forall>k<2 - 1. \<not> has_data (?flaky (length ([] :: nat list list) + k) [7]))
        \<and> has_data (?flaky (length ([] :: nat list list) + (2 - 1)) [7])"
    by (simp add: has_data_def)
  have c: "(0::nat) < 3 \<and> (\<forall>k<3. insert_fails (?dup (length (sent ?s0) + k) [7]))"
    by (simp add: insert_fails_def)
  have d: "(1::nat) \<le> 2 \<and> (2::nat) \<le> 3
        \<and> (\<forall>k<2 - 1. insert_fails (?flaky (length (sent ?s0) + k) [7]))
        \<and> \<not> insert_fails (?flaky (length (sent ?s0) + (2 - 1)) [7])"
    by (simp add: insert_fails_def)
  from a retry_attempts [of 2 ?down "[]" "[7]" 2 3 ?dup ?s0 "[7]" 0 200 1 2]
  have 1: "insert_batch ?down [7] 2 [] = (False, [] @ replicate (2 + 1) [7])" by blast
  from b retry_attempts [of 2 ?flaky "[]" "[7]" 2 3 ?flaky ?s0 "[7]" 0 200 1 2]
  have 2: "insert_batch ?flaky [7] 2 [] = (True, [] @ replicate 2 [7])" by blast
  from c retry_attempts [of 2 ?down "[]" "[7]" 2 3 ?dup ?s0 "[7]" 0 200 1 2]
  have 3: "sent (retry_loop ?dup 0 200 1 [7] 3 0 ?s0) = sent ?s0 @ replicate 3 [7]" by blast
  from d retry_attempts [of 2 ?flaky "[]" "[7]" 2 3 ?flaky ?s0 "[7]" 0 200 1 2]
  have 4: "sent (retry_loop ?flaky 0 200 1 [7] 3 0 ?s0) = sent ?s0 @ replicate 2 [7]" by blast
  from 1 2 3 4 show ?thesis by (simp add: numeral_eq_Suc)
qed

text \<open>
  The claim as stated fails on the churn loader: with \<open>max_retries = 3\<close> and a store that
  always fails, the chunk is given up after three insert calls, not four.
\<close>

theorem retry_attempts_counterexample:
  "sent (retry_loop (\<lambda>k recs. Raises ''timeout'') 0 200 1 [7 :: nat] 3 0
           \<lparr>sent = [], printed = []\<rparr>) = [[7], [7], [7]]
   \<and> length (sent (retry_loop (\<lambda>k recs. Raises ''timeout'') 0 200 1 [7 :: nat] 3 0
           \<lparr>sent = [], printed = []\<rparr>)) \<noteq> 3 + 1
   \<and> printed (retry_loop (\<lambda>k recs. Raises ''timeout'') 0 200 1 [7 :: nat] 3 0
           \<lparr>sent = [], printed = []\<rparr>)
       = [ErrorInserting 1, Retrying 1 3, ErrorInserting 1, Retrying 2 3,
          ErrorInserting 1, FailedSkipping]"
  by (simp add: retry_loop.simps insert_fails_def)

section \<open>Load report and partial failure\<close>

lemma load_batches_failed_chunk:
  assumes "clean_records isoformat iterrows (iloc df i (i + n)) = Inr c"
    and "\<forall>k<3. \<not> has_data (remote (length (sent s) + k) c)"
  shows "load_batches isoformat iterrows remote df n (i # rest) s
           = load_batches isoformat iterrows remote df n rest
               (s\<lparr>sent := sent s @ replicate 3 c, fail_count := fail_count s + length c\<rparr>)"
proof -
  from assms(2) have "\<forall>k<2 + 1. \<not> has_data (remote (length (sent s) + k) c)" by simp
  from insert_batch_all_fail
         [where retries = 2 and remote = remote and calls = "sent s" and recs = c, OF this]
  have "insert_batch remote c 2 (sent s) = (False, sent s @ replicate 3 c)" by simp
  with assms(1) show ?thesis by simp
qed

lemma load_chunks_failed_chunk:
  assumes "0 < max_retries"
    and "\<forall>k<max_retries.
           insert_fails (remote (length (sent s) + k) (iloc df start (start + batch_size)))"
  shows "\<exists>evs. load_chunks remote df batch_size max_retries (start # rest) s
                 = load_chunks remote df batch_size max_retries rest
                     (s\<lparr>sent := sent s @ replicate max_retries (iloc df start (start + batch_size)),
                        printed := printed s @ evs @ [FailedSkipping]\<rparr>)
               \<and> (\<forall>a b c. Inserted a b c \<notin> set evs)"
proof -
  let ?recs = "iloc df start (start + batch_size)"
  let ?s1 = "retry_loop remote start batch_size (length df) ?recs max_retries 0 s"
  from churn_all_fail
         [where max_retries = max_retries and remote = remote and s = s and records = "?recs"
            and start = start and batch_size = batch_size and total_rows = "length df",
          OF assms]
  obtain evs where
    st: "sent ?s1 = sent s @ replicate max_retries ?recs"
    and pr: "printed ?s1 = printed s @ evs @ [FailedSkipping]"
    and ni: "\<forall>a b c. Inserted a b c \<notin> set evs"
    by blast
  have "?s1 = s\<lparr>sent := sent s @ replicate max_retries ?recs,
                 printed := printed s @ evs @ [FailedSkipping]\<rparr>"
    using st pr by (intro churn_load.equality) simp_all
  then have "load_chunks remote df batch_size max_retries (start # rest) s
                 = load_chunks remote df batch_size max_retries rest
                     (s\<lparr>sent := sent s @ replicate max_retries ?recs,
                        printed := printed s @ evs @ [FailedSkipping]\<rparr>)"
    by simp
  with ni show ?thesis by blast
qed

lemma air_run:
  assumes "\<forall>r \<in> set df. iterrows r ''time'' \<noteq> None"
  shows "\<exists>chunks cleaned ns oks s.
           batch df BATCH_SIZE = Inr chunks
         \<and> list_all2 (\<lambda>c c'. clean_records isoformat iterrows c = Inr c') chunks cleaned
         \<and> length ns = length chunks \<and> length oks = length chunks
         \<and> (\<forall>(ok, m) \<in> set (zip oks ns). 1 \<le> m \<and> m \<le> 3 \<and> (\<not> ok \<longrightarrow> m = 3))
         \<and> air_load_to_supabase isoformat iterrows remote df = Inr s
         \<and> sent s = concat (map2 replicate ns cleaned)
         \<and> success_count s
             = sum_list (map (\<lambda>(ok, c). if ok then length c else 0) (zip oks chunks))
         \<and> fail_count s
             = sum_list (map (\<lambda>(ok, c). if ok then 0 else length c) (zip oks chunks))"
proof -
  let ?starts = "range_from 0 (length df) BATCH_SIZE"
  let ?chunks = "map (\<lambda>start. iloc df start (start + BATCH_SIZE)) ?starts"
  let ?s0 = "\<lparr>sent = ([] :: row list list), success_count = 0, fail_count = 0\<rparr>"
  have b: "batch df BATCH_SIZE = Inr ?chunks"
    by (simp add: batch_def py_range_def BATCH_SIZE_def)
  from load_batches_run
         [where iterrows = iterrows and df = df and isoformat = isoformat and remote = remote
            and n = BATCH_SIZE and starts = "?starts" and s = "?s0", OF assms]
  obtain s ns oks cs where
    r: "load_batches isoformat iterrows remote df BATCH_SIZE ?starts ?s0 = Inr s"
    and ns: "length ns = length ?starts" and oks: "length oks = length ?starts"
    and cl: "list_all2 (\<lambda>i c. clean_records isoformat iterrows (iloc df i (i + BATCH_SIZE)) = Inr c)
               ?starts cs"
    and bd: "\<forall>(ok, m) \<in> set (zip oks ns). 1 \<le> m \<and> m \<le> 3 \<and> (\<not> ok \<longrightarrow> m = 3)"
    and st: "sent s = sent ?s0 @ concat (map2 replicate ns cs)"
    and sc: "success_count s = success_count ?s0
               + sum_list (map (\<lambda>(ok, i). if ok then length (iloc df i (i + BATCH_SIZE)) else 0)
                            (zip oks ?starts))"
    and fc: "fail_count s = fail_count ?s0
               + sum_list (map (\<lambda>(ok, i). if ok then 0 else length (iloc df i (i + BATCH_SIZE)))
                            (zip oks ?starts))"
    by blast
  have 1: "list_all2 (\<lambda>c c'. clean_records isoformat iterrows c = Inr c') ?chunks cs"
    using cl by (simp add: list_all2_map1)
  have 2: "length ns = length ?chunks" "length oks = length ?chunks" using ns oks by simp_all
  have 3: "air_load_to_supabase isoformat iterrows remote df = Inr s"
    using r by (simp add: air_load_to_supabase_def)
  have 4: "sent s = concat (map2 replicate ns cs)" using st by simp
  have "sum_list (map (\<lambda>(ok, c). if ok then length c else 0) (zip oks ?chunks))
          = sum_list (map (\<lambda>(ok, i). if ok then length (iloc df i (i + BATCH_SIZE)) else 0)
                       (zip oks ?starts))"
    by (rule sum_zip_map)
  with sc have 5: "success_count s
             = sum_list (map (\<lambda>(ok, c). if ok then length c else 0) (zip oks ?chunks))"
    by simp
  have "sum_list (map (\<lambda>(ok, c). if ok then 0 else length c) (zip oks ?chunks))
          = sum_list (map (\<lambda>(ok, i). if ok then 0 else length (iloc df i (i + BATCH_SIZE)))
                       (zip oks ?starts))"
    by (rule sum_zip_map)
  with fc have 6: "fail_count s
             = sum_list (map (\<lambda>(ok, c). if ok then 0 else length c) (zip oks ?chunks))"
    by simp
  from b 1 2 bd 3 4 5 6 show ?thesis by blast
qed

text \<open>
  Claim C6.  For every input frame (every row having its \<open>time\<close> column) and every
  behaviour of the remote store, the air-quality loader returns its two counts and
  \<open>success_count + fail_count\<close> is the number of input rows: every chunk has one outcome,
  \<open>success_count\<close> is the number of rows of the chunks that succeeded and \<open>fail_count\<close> the
  number of rows of the chunks that failed.
\<close>

theorem report_totals:
  assumes "\<forall>r \<in> set df. iterrows r ''time'' \<noteq> None"
  shows "\<exists>s chunks oks.
           air_load_to_supabase isoformat iterrows remote df = Inr s
         \<and> success_count s + fail_count s = length df
         \<and> batch df BATCH_SIZE = Inr chunks
         \<and> length oks = length chunks
         \<and> success_count s
             = sum_list (map (\<lambda>(ok, c). if ok then length c else 0) (zip oks chunks))
         \<and> fail_count s
             = sum_list (map (\<lambda>(ok, c). if ok then 0 else length c) (zip oks chunks))"
proof -
  have pos: "0 < BATCH_SIZE" by (simp add: BATCH_SIZE_def)
  from air_run
         [where iterrows = iterrows and df = df and isoformat = isoformat and remote = remote,
          OF assms]
  obtain chunks oks s where
    b: "batch df BATCH_SIZE = Inr chunks" and oks: "length oks = length chunks"
    and r: "air_load_to_supabase isoformat iterrows remote df = Inr s"
    and sc: "success_count s
               = sum_list (map (\<lambda>(ok, c). if ok then length c else 0) (zip oks chunks))"
    and fc: "fail_count s
               = sum_list (map (\<lambda>(ok, c). if ok then 0 else length c) (zip oks chunks))"
    by blast
  from b have ch: "chunks = map (\<lambda>start. iloc df start (start + BATCH_SIZE))
                              (range_from 0 (length df) BATCH_SIZE)"
    using pos by (simp add: batch_def py_range_def)
  have "success_count s + fail_count s = sum_list (map length chunks)"
    using sc fc split_counts [OF oks, of length] by simp
  also have "\<dots> = length df"
    using ch slices_total_length [OF pos, of df] by (simp add: comp_def)
  finally have tot: "success_count s + fail_count s = length df" .
  from r tot b oks sc fc show ?thesis by blast
qed

lemma air_two_chunk_run:
  assumes "clean_record isoformat r = Inr c"
  shows "air_load_to_supabase isoformat (\<lambda>r. r)
           (\<lambda>k recs. if k < 3 then Raises ''timeout'' else Returns (Some recs) None)
           (replicate 201 r)
         = Inr \<lparr>sent = [replicate 200 c, replicate 200 c, replicate 200 c, [c]],
                success_count = 1, fail_count = 200\<rparr>"
proof -
  let ?remote = "\<lambda>(k::nat) (recs::row list).
                   if k < 3 then Raises ''timeout'' else Returns (Some recs) None"
  have starts: "range_from 0 201 200 = [0, 200]"
    by (simp add: range_from.simps)
  have c1: "clean_records isoformat (\<lambda>r. r) (iloc (replicate 201 r) 0 200)
              = Inr (replicate 200 c)"
    using clean_records_replicate [where iterrows = "\<lambda>r. r", OF assms, of 200]
    by (simp add: iloc_def)
  have c2: "clean_records isoformat (\<lambda>r. r) (iloc (replicate 201 r) 200 400) = Inr [c]"
    using assms by (simp add: iloc_def)
  have i1: "insert_batch ?remote (replicate 200 c) 2 []
              = (False, [replicate 200 c, replicate 200 c, replicate 200 c])"
    by (simp add: insert_batch_def insert_attempts.simps has_data_def)
  have i2: "insert_batch ?remote [c] 2 [replicate 200 c, replicate 200 c, replicate 200 c]
              = (True, [replicate 200 c, replicate 200 c, replicate 200 c, [c]])"
    by (simp add: insert_batch_def insert_attempts.simps has_data_def)
  show ?thesis
    by (simp add: air_load_to_supabase_def BATCH_SIZE_def starts c1 c2 i1 i2)
qed

theorem report_totals_witness:
  "[''city'' \<mapsto> PStr ''Delhi'', ''time'' \<mapsto> PTimestamp 0, ''pm10'' \<mapsto> PNaN] ''time'' \<noteq> None
   \<and> (\<exists>s. air_load_to_supabase (\<lambda>t. ''1970-01-01T00:00:00'') (\<lambda>r. r)
              (\<lambda>k recs. if k < 3 then Raises ''timeout'' else Returns (Some recs) None)
              (replicate 201 [''city'' \<mapsto> PStr ''Delhi'', ''time'' \<mapsto> PTimestamp 0,
                              ''pm10'' \<mapsto> PNaN]) = Inr s
          \<and> success_count s = 1 \<and> fail_count s = 200
          \<and> success_count s + fail_count s = 201)"
proof -
  let ?r = "[''city'' \<mapsto> PStr ''Delhi'', ''time'' \<mapsto> PTimestamp 0, ''pm10'' \<mapsto> PNaN]"
  let ?iso = "\<lambda>t::int. ''1970-01-01T00:00:00''"
  let ?remote = "\<lambda>(k::nat) (recs::row list).
                   if k < 3 then Raises ''timeout'' else Returns (Some recs) None"
  have a: "?r ''time'' \<noteq> None" by simp
  then have h: "\<forall>r \<in> set (replicate 201 ?r). (\<lambda>r. r) r ''time'' \<noteq> None" by simp
  from report_totals
         [where iterrows = "\<lambda>r. r" and df = "replicate 201 ?r" and isoformat = "?iso"
            and remote = "?remote", OF h]
  obtain s where
    r: "air_load_to_supabase ?iso (\<lambda>r. r) ?remote (replicate 201 ?r) = Inr s"
    and t: "success_count s + fail_count s = length (replicate 201 ?r)"
    by blast
  from clean_record_total [where row = "?r" and isoformat = "?iso", OF a] obtain c where "clean_record ?iso ?r = Inr c"
    by blast
  from air_two_chunk_run [OF this] r have "success_count s = 1" "fail_count s = 200"
    by simp_all
  moreover from t have "success_count s + fail_count s = 201" by simp
  ultimately have "\<exists>s. air_load_to_supabase ?iso (\<lambda>r. r) ?remote (replicate 201 ?r) = Inr s
          \<and> success_count s = 1 \<and> fail_count s = 200
          \<and> success_count s + fail_count s = 201"
    using r by blast
  with a show ?thesis by (intro conjI)
qed

text \<open>
  Claim C7.  A chunk that fails after its retries does not abort the run: the loader
  records the failure and goes on with the remaining chunks.  In the air-quality loader
  a chunk whose three inserts all fail adds its rows to \<open>fail_count\<close> and the loop
  continues with the chunks after it; in the churn loader a chunk whose \<open>max_retries\<close>
  inserts all fail prints the failure, is never printed as inserted, and the loop
  continues with the chunks after it.  Under every behaviour of the remote store both
  loaders finish: the insert calls they make are, chunk by chunk and in chunk order,
  between one and three sends of each chunk, and a chunk recorded as failed was sent all
  three times.  The air-quality loader returns its summary, with the rows of the failed
  chunks in \<open>fail_count\<close> and the rows of the others in \<open>success_count\<close>; the churn loader
  prints one outcome per chunk and then its closing line.
\<close>

theorem failed_chunk_does_not_abort:
  fixes churn_remote :: "'q remote" and churn_df :: "'q list" and t :: "'q churn_load"
  shows
  "(clean_records isoformat iterrows (iloc df i (i + n)) = Inr c
      \<and> (\<forall>k<3. \<not> has_data (remote (length (sent s) + k) c)) \<longrightarrow>
    load_batches isoformat iterrows remote df n (i # rest) s
      = load_batches isoformat iterrows remote df n rest
          (s\<lparr>sent := sent s @ replicate 3 c, fail_count := fail_count s + length c\<rparr>))
   \<and> ((\<forall>r \<in> set df. iterrows r ''time'' \<noteq> None) \<longrightarrow>
      (\<exists>chunks cleaned ns oks s'.
         batch df BATCH_SIZE = Inr chunks
       \<and> list_all2 (\<lambda>c c'. clean_records isoformat iterrows c = Inr c') chunks cleaned
       \<and> length ns = length chunks \<and> length oks = length chunks
       \<and> (\<forall>(ok, m) \<in> set (zip oks ns). 1 \<le> m \<and> m \<le> 3 \<and> (\<not> ok \<longrightarrow> m = 3))
       \<and> air_load_to_supabase isoformat iterrows remote df = Inr s'
       \<and> sent s' = concat (map2 replicate ns cleaned)
       \<and> success_count s'
           = sum_list (map (\<lambda>(ok, c). if ok then length c else 0) (zip oks chunks))
       \<and> fail_count s'
           = sum_list (map (\<lambda>(ok, c). if ok then 0 else length c) (zip oks chunks))))
   \<and> (0 < max_retries
        \<and> (\<forall>k<max_retries. insert_fails (churn_remote (length (sent t) + k)
                                 (iloc churn_df start (start + batch_size)))) \<longrightarrow>
      (\<exists>evs. load_chunks churn_remote churn_df batch_size max_retries (start # starts) t
                = load_chunks churn_remote churn_df batch_size max_retries starts
                    (t\<lparr>sent := sent t @ replicate max_retries
                                         (iloc churn_df start (start + batch_size)),
                       printed := printed t @ evs @ [FailedSkipping]\<rparr>)
              \<and> (\<forall>a b c. Inserted a b c \<notin> set evs)))
   \<and> (\<exists>chunks ns evs.
         batch churn_df 200 = Inr chunks
       \<and> length ns = length chunks
       \<and> (\<forall>m \<in> set ns. 1 \<le> m \<and> m \<le> 3)
       \<and> sent (churn_load_to_supabase churn_remote churn_df) = concat (map2 replicate ns chunks)
       \<and> printed (churn_load_to_supabase churn_remote churn_df) = evs @ [Finished]
       \<and> length (filter is_outcome evs) = length chunks)"
  (is "(?H1 \<longrightarrow> ?C1) \<and> (?H2 \<longrightarrow> ?C2) \<and> (?H3 \<longrightarrow> ?C3) \<and> ?C4")
proof -
  have 1: "?H1 \<longrightarrow> ?C1"
  proof
    assume h: ?H1
    then have a: "clean_records isoformat iterrows (iloc df i (i + n)) = Inr c"
      and b: "\<forall>k<3. \<not> has_data (remote (length (sent s) + k) c)"
      by simp_all
    from load_batches_failed_chunk
           [where isoformat = isoformat and iterrows = iterrows and df = df and i = i
              and n = n and c = c and remote = remote and s = s and rest = rest, OF a b]
    show ?C1 .
  qed
  have 2: "?H2 \<longrightarrow> ?C2"
  proof
    assume h: ?H2
    from air_run
           [where iterrows = iterrows and df = df and isoformat = isoformat
              and remote = remote, OF h]
    show ?C2 .
  qed
  have 3: "?H3 \<longrightarrow> ?C3"
  proof
    assume h: ?H3
    then have a: "0 < max_retries"
      and b: "\<forall>k<max_retries. insert_fails (churn_remote (length (sent t) + k)
                                 (iloc churn_df start (start + batch_size)))"
      by simp_all
    from load_chunks_failed_chunk
           [where max_retries = max_retries and remote = churn_remote and s = t
              and df = churn_df and start = start and batch_size = batch_size
              and rest = starts, OF a b]
    show ?C3 .
  qed
  have 4: ?C4
  proof -
    let ?starts = "range_from 0 (length churn_df) 200"
    let ?chunks = "map (\<lambda>start. iloc churn_df start (start + 200)) ?starts"
    let ?s0 = "\<lparr>sent = ([] :: 'q list list), printed = []\<rparr>"
    have b: "batch churn_df 200 = Inr ?chunks"
      by (simp add: batch_def py_range_def)
    from load_chunks_sent [of 3 ?starts churn_remote churn_df 200 ?s0]
    obtain ns evs where
      ns: "length ns = length ?starts"
      and bd: "\<forall>m \<in> set ns. 1 \<le> m \<and> m \<le> 3"
      and st: "sent (load_chunks churn_remote churn_df 200 3 ?starts ?s0)
                 = sent ?s0 @ concat (map2 replicate ns ?chunks)"
      and pr: "printed (load_chunks churn_remote churn_df 200 3 ?starts ?s0) = printed ?s0 @ evs"
      and oc: "length (filter is_outcome evs) = length ?starts"
      by auto
    have n1: "length ns = length ?chunks" using ns by simp
    have n2: "sent (churn_load_to_supabase churn_remote churn_df)
               = concat (map2 replicate ns ?chunks)"
      using st by (simp add: churn_load_to_supabase_def Let_def)
    have n3: "printed (churn_load_to_supabase churn_remote churn_df) = evs @ [Finished]"
      using pr by (simp add: churn_load_to_supabase_def Let_def)
    have n4: "length (filter is_outcome evs) = length ?chunks" using oc by simp
    from b n1 bd n2 n3 n4 show ?thesis by blast
  qed
  from 1 2 3 4 show ?thesis by blast
qed

lemma churn_two_chunk_run:
  "churn_load_to_supabase
     (\<lambda>k recs. if k < 3 then Raises ''timeout'' else Returns (Some recs) None)
     (replicate 201 (7 :: nat))
   = \<lparr>sent = [replicate 200 7, replicate 200 7, replicate 200 7, [7]],
      printed = [ErrorInserting 1, Retrying 1 3, ErrorInserting 1, Retrying 2 3,
                 ErrorInserting 1, FailedSkipping, Inserted 201 201 201, Finished]\<rparr>"
proof -
  have starts: "range_from 0 201 200 = [0, 200]"
    by (simp add: range_from.simps)
  have c1: "iloc (replicate 201 (7 :: nat)) 0 200 = replicate 200 7"
    by (simp add: iloc_def)
  have c2: "iloc (replicate 201 (7 :: nat)) 200 400 = [7]"
    by (simp add: iloc_def)
  show ?thesis
    by (simp add: churn_load_to_supabase_def starts c1 c2 retry_loop.simps insert_fails_def)
qed

theorem failed_chunk_does_not_abort_witness:
  "[''city'' \<mapsto> PStr ''Delhi'', ''time'' \<mapsto> PTimestamp 0, ''pm10'' \<mapsto> PNaN] ''time'' \<noteq> None
   \<and> batch (replicate 201 [''city'' \<mapsto> PStr ''Delhi'', ''time'' \<mapsto> PTimestamp 0,
                            ''pm10'' \<mapsto> PNaN]) BATCH_SIZE
       = Inr [replicate 200 [''city'' \<mapsto> PStr ''Delhi'', ''time'' \<mapsto> PTimestamp 0,
                              ''pm10'' \<mapsto> PNaN],
              [[''city'' \<mapsto> PStr ''Delhi'', ''time'' \<mapsto> PTimestamp 0, ''pm10'' \<mapsto> PNaN]]]
   \<and> (\<exists>c. clean_record (\<lambda>t. ''1970-01-01T00:00:00'')
               [''city'' \<mapsto> PStr ''Delhi'', ''time'' \<mapsto> PTimestamp 0, ''pm10'' \<mapsto> PNaN] = Inr c
          \<and> air_load_to_supabase (\<lambda>t. ''1970-01-01T00:00:00'') (\<lambda>r. r)
               (\<lambda>k recs. if k < 3 then Raises ''timeout'' else Returns (Some recs) None)
               (replicate 201 [''city'' \<mapsto> PStr ''Delhi'', ''time'' \<mapsto> PTimestamp 0,
                               ''pm10'' \<mapsto> PNaN])
              = Inr \<lparr>sent = [replicate 200 c, replicate 200 c, replicate 200 c, [c]],
                     success_count = 1, fail_count = 200\<rparr>)
   \<and> (\<exists>evs. load_chunks
                (\<lambda>k recs. if k < 3 then Raises ''timeout'' else Returns (Some recs) None)
                (replicate 201 (7 :: nat)) 200 3 [0, 200] \<lparr>sent = [], printed = []\<rparr>
              = load_chunks
                  (\<lambda>k recs. if k < 3 then Raises ''timeout'' else Returns (Some recs) None)
                  (replicate 201 (7 :: nat)) 200 3 [200]
                  \<lparr>sent = [replicate 200 7, replicate 200 7, replicate 200 7],
                   printed = evs @ [FailedSkipping]\<rparr>)
   \<and> churn_load_to_supabase
        (\<lambda>k recs. if k < 3 then Raises ''timeout'' else Returns (Some recs) None)
        (replicate 201 (7 :: nat))
       = \<lparr>sent = [replicate 200 7, replicate 200 7, replicate 200 7, [7]],
          printed = [ErrorInserting 1, Retrying 1 3, ErrorInserting 1, Retrying 2 3,
                     ErrorInserting 1, FailedSkipping, Inserted 201 201 201, Finished]\<rparr>"
proof -
  let ?r = "[''city'' \<mapsto> PStr ''Delhi'', ''time'' \<mapsto> PTimestamp 0, ''pm10'' \<mapsto> PNaN]"
  let ?df = "replicate 201 ?r"
  let ?iso = "\<lambda>t::int. ''1970-01-01T00:00:00''"
  let ?remote = "\<lambda>(k::nat) (recs::row list).
                   if k < 3 then Raises ''timeout'' else Returns (Some recs) None"
  let ?cremote = "\<lambda>(k::nat) (recs::nat list).
                    if k < 3 then Raises ''timeout'' else Returns (Some recs) None"
  let ?cdf = "replicate 201 (7 :: nat)"
  let ?s0 = "\<lparr>sent = ([] :: row list list), success_count = 0, fail_count = 0\<rparr>"
  let ?t0 = "\<lparr>sent = ([] :: nat list list), printed = []\<rparr>"
  have a: "?r ''time'' \<noteq> None" by simp
  from clean_record_total [where row = "?r" and isoformat = "?iso", OF a]
  obtain c where c: "clean_record ?iso ?r = Inr c" by blast
  have starts: "range_from 0 201 200 = [0, 200]" by (simp add: range_from.simps)
  have b: "batch ?df BATCH_SIZE = Inr [replicate 200 ?r, [?r]]"
    by (simp add: batch_def py_range_def BATCH_SIZE_def starts iloc_def)
  note T = failed_chunk_does_not_abort
             [where isoformat = "?iso" and iterrows = "\<lambda>r. r" and df = "?df" and i = 0
                and n = 200 and c = "replicate 200 c" and remote = "?remote" and s = "?s0"
                and rest = "[200]" and max_retries = 3 and churn_remote = "?cremote"
                and t = "?t0" and churn_df = "?cdf" and start = 0 and batch_size = 200
                and starts = "[200]"]
  \<comment> \<open>the first chunk fails three times: it is counted as failed and the loop goes on\<close>
  have h1: "clean_records ?iso (\<lambda>r. r) (iloc ?df 0 (0 + 200)) = Inr (replicate 200 c)
              \<and> (\<forall>k<3. \<not> has_data (?remote (length (sent ?s0) + k) (replicate 200 c)))"
    using clean_records_replicate [where iterrows = "\<lambda>r. r" and isoformat = "?iso", OF c, of 200]
    by (simp add: iloc_def has_data_def)
  from T h1 have step: "load_batches ?iso (\<lambda>r. r) ?remote ?df 200 [0, 200] ?s0
      = load_batches ?iso (\<lambda>r. r) ?remote ?df 200 [200]
          (?s0\<lparr>sent := sent ?s0 @ replicate 3 (replicate 200 c),
                 fail_count := fail_count ?s0 + length (replicate 200 c)\<rparr>)"
    by blast
  have c2: "clean_records ?iso (\<lambda>r. r) (iloc ?df 200 400) = Inr [c]"
    using c by (simp add: iloc_def)
  have i2: "insert_batch ?remote [c] 2 [replicate 200 c, replicate 200 c, replicate 200 c]
              = (True, [replicate 200 c, replicate 200 c, replicate 200 c, [c]])"
    by (simp add: insert_batch_def insert_attempts.simps has_data_def)
  have s1: "?s0\<lparr>sent := sent ?s0 @ replicate 3 (replicate 200 c),
                 fail_count := fail_count ?s0 + length (replicate 200 c)\<rparr>
            = \<lparr>sent = [replicate 200 c, replicate 200 c, replicate 200 c],
               success_count = 0, fail_count = 200\<rparr>"
    by (simp add: numeral_3_eq_3)
  have rest: "load_batches ?iso (\<lambda>r. r) ?remote ?df 200 [200]
                \<lparr>sent = [replicate 200 c, replicate 200 c, replicate 200 c],
                 success_count = 0, fail_count = 200\<rparr>
              = Inr \<lparr>sent = [replicate 200 c, replicate 200 c, replicate 200 c, [c]],
                     success_count = 1, fail_count = 200\<rparr>"
    by (simp add: c2 i2)
  have "air_load_to_supabase ?iso (\<lambda>r. r) ?remote ?df
          = load_batches ?iso (\<lambda>r. r) ?remote ?df 200 [0, 200] ?s0"
    by (simp only: air_load_to_supabase_def BATCH_SIZE_def length_replicate starts)
  also have "\<dots> = load_batches ?iso (\<lambda>r. r) ?remote ?df 200 [200]
          (?s0\<lparr>sent := sent ?s0 @ replicate 3 (replicate 200 c),
                 fail_count := fail_count ?s0 + length (replicate 200 c)\<rparr>)"
    by (rule step)
  also have "\<dots> = load_batches ?iso (\<lambda>r. r) ?remote ?df 200 [200]
                \<lparr>sent = [replicate 200 c, replicate 200 c, replicate 200 c],
                 success_count = 0, fail_count = 200\<rparr>"
    by (simp only: s1)
  also have "\<dots> = Inr \<lparr>sent = [replicate 200 c, replicate 200 c, replicate 200 c, [c]],
                     success_count = 1, fail_count = 200\<rparr>"
    by (rule rest)
  finally have air: "air_load_to_supabase ?iso (\<lambda>r. r) ?remote ?df
               = Inr \<lparr>sent = [replicate 200 c, replicate 200 c, replicate 200 c, [c]],
                      success_count = 1, fail_count = 200\<rparr>" .
  \<comment> \<open>every row has its \<open>time\<close> column: the run returns\<close>
  have h2: "\<forall>r \<in> set ?df. (\<lambda>r. r) r ''time'' \<noteq> None" by simp
  from T h2 obtain s' where "air_load_to_supabase ?iso (\<lambda>r. r) ?remote ?df = Inr s'"
    by blast
  \<comment> \<open>the churn loader's first chunk fails three times\<close>
  have h3: "(0::nat) < 3
              \<and> (\<forall>k<3. insert_fails (?cremote (length (sent ?t0) + k) (iloc ?cdf 0 (0 + 200))))"
    by (simp add: insert_fails_def)
  from T h3 obtain evs where
    "load_chunks ?cremote ?cdf 200 3 [0, 200] ?t0
       = load_chunks ?cremote ?cdf 200 3 [200]
           (?t0\<lparr>sent := sent ?t0 @ replicate 3 (iloc ?cdf 0 (0 + 200)),
                  printed := printed ?t0 @ evs @ [FailedSkipping]\<rparr>)"
    by blast
  then have churn_step: "\<exists>evs. load_chunks ?cremote ?cdf 200 3 [0, 200] ?t0
       = load_chunks ?cremote ?cdf 200 3 [200]
           \<lparr>sent = [replicate 200 7, replicate 200 7, replicate 200 7],
            printed = evs @ [FailedSkipping]\<rparr>"
    by (simp add: iloc_def numeral_3_eq_3) blast
  from c air have air': "\<exists>c. clean_record ?iso ?r = Inr c
          \<and> air_load_to_supabase ?iso (\<lambda>r. r) ?remote ?df
              = Inr \<lparr>sent = [replicate 200 c, replicate 200 c, replicate 200 c, [c]],
                     success_count = 1, fail_count = 200\<rparr>"
    by blast
  from a b air' churn_step churn_two_chunk_run show ?thesis by (intro conjI)
qed

section \<open>Record coercion\<close>

lemma nan_to_none_idem: "nan_to_none (nan_to_none v) = nan_to_none v"
  by (simp add: nan_to_none_def)

text \<open>
  Claim C9.  The loader's coercion of a row is idempotent on the record's values: a row
  with its \<open>time\<close> column is coerced to a record, coercing that record's values again
  gives the same record (\<open>None\<close> stays \<open>None\<close>, a textual timestamp is unchanged), the
  record has the keys of the row, and every value that is neither the float NaN nor a
  \<open>pd.Timestamp\<close> under \<open>time\<close> is kept as it is.
\<close>

theorem clean_record_idempotent:
  assumes "row ''time'' \<noteq> None"
  shows "\<exists>record. clean_record isoformat row = Inr record
           \<and> clean_record isoformat record = Inr record
           \<and> dom record = dom row
           \<and> (\<forall>k v. row k = Some v \<and> v \<noteq> PNaN \<and> \<not> (k = ''time'' \<and> (\<exists>t. v = PTimestamp t))
                 \<longrightarrow> record k = Some v)"
proof -
  let ?rec = "\<lambda>k. map_option nan_to_none (row k)"
  from assms obtain v where v: "row ''time'' = Some v" by auto
  have idem: "(\<lambda>k. map_option nan_to_none (?rec k)) = ?rec"
    by (rule ext) (simp add: option.map_comp comp_def nan_to_none_idem)
  have dom: "dom ?rec = dom row" by (auto simp: dom_def)
  have keep: "\<forall>k v. row k = Some v \<and> v \<noteq> PNaN \<longrightarrow> ?rec k = Some v"
    by (simp add: nan_to_none_def)
  show ?thesis
  proof (cases "\<exists>t. v = PTimestamp t")
    case True
    then obtain t where t: "v = PTimestamp t" by blast
    let ?out = "?rec(''time'' \<mapsto> PStr (isoformat t))"
    have 1: "clean_record isoformat row = Inr ?out"
      using v t by (simp add: clean_record_def Let_def nan_to_none_def)
    have "(\<lambda>k. map_option nan_to_none (?out k)) = ?out"
      by (rule ext) (simp add: option.map_comp comp_def nan_to_none_idem, simp add: nan_to_none_def)
    then have 2: "clean_record isoformat ?out = Inr ?out"
      by (simp add: clean_record_def Let_def nan_to_none_def)
    have 3: "dom ?out = dom row" using v dom by auto
    have 4: "\<forall>k v. row k = Some v \<and> v \<noteq> PNaN \<and> \<not> (k = ''time'' \<and> (\<exists>t. v = PTimestamp t))
                 \<longrightarrow> ?out k = Some v"
      using v t keep by auto
    from 1 2 3 4 show ?thesis by blast
  next
    case False
    have 1: "clean_record isoformat row = Inr ?rec"
      using v False by (cases v) (simp_all add: clean_record_def Let_def nan_to_none_def)
    have "clean_record isoformat ?rec = Inr (\<lambda>k. map_option nan_to_none (?rec k))"
      using v False by (cases v) (simp_all add: clean_record_def Let_def nan_to_none_def)
    with idem have 2: "clean_record isoformat ?rec = Inr ?rec" by simp
    from 1 2 dom keep show ?thesis by blast
  qed
qed

theorem clean_record_idempotent_witness:
  "[''time'' \<mapsto> PTimestamp 0, ''pm10'' \<mapsto> PNaN, ''city'' \<mapsto> PStr ''Delhi''] ''time'' \<noteq> None
   \<and> (\<exists>record. clean_record (\<lambda>t. ''1970-01-01T00:00:00'')
          [''time'' \<mapsto> PTimestamp 0, ''pm10'' \<mapsto> PNaN, ''city'' \<mapsto> PStr ''Delhi''] = Inr record
        \<and> clean_record (\<lambda>t. ''1970-01-01T00:00:00'') record = Inr record
        \<and> record ''time'' = Some (PStr ''1970-01-01T00:00:00'')
        \<and> record ''pm10'' = Some PNone
        \<and> record ''city'' = Some (PStr ''Delhi''))"
proof -
  let ?row = "[''time'' \<mapsto> PTimestamp 0, ''pm10'' \<mapsto> PNaN, ''city'' \<mapsto> PStr ''Delhi'']"
  let ?iso = "\<lambda>t::int. ''1970-01-01T00:00:00''"
  have h: "?row ''time'' \<noteq> None" by simp
  from clean_record_idempotent [where row = "?row" and isoformat = "?iso", OF h] obtain out where
    r: "clean_record ?iso ?row = Inr out" and i: "clean_record ?iso out = Inr out"
    by blast
  from r have "out = (\<lambda>k. map_option nan_to_none (?row k))(''time'' \<mapsto> PStr (?iso 0))"
    by (simp add: clean_record_def Let_def nan_to_none_def)
  then have "out ''time'' = Some (PStr ''1970-01-01T00:00:00'')"
    and "out ''pm10'' = Some PNone" and "out ''city'' = Some (PStr ''Delhi'')"
    by (simp_all add: nan_to_none_def)
  with h r i show ?thesis by blast
qed

section \<open>Severity and risk\<close>

lemma fadd_None_left: "fadd None b = None"
  by (simp add: fadd_def)

lemma fadd_None_right: "fadd a None = None"
  by (cases a) (simp_all add: fadd_def)

lemma fmul_None: "fmul None k = None"
  by (simp add: fmul_def)

lemma coerce_float_isna: "isna v \<Longrightarrow> coerce_float parse v = None"
  by (auto simp: isna_def coerce_float_def)

lemma compute_severity_missing:
  "pm10 row = None \<or> pm2_5 row = None \<or> carbon_monoxide row = None
     \<or> nitrogen_dioxide row = None \<or> sulphur_dioxide row = None \<or> ozone row = None
   \<Longrightarrow> compute_severity row = None"
  unfolding compute_severity_def
  by (elim disjE) (simp_all add: fmul_None fadd_None_left fadd_None_right)

lemma classify_risk_missing: "classify_risk None = ''Low Risk''"
  by (simp add: classify_risk_def fgt_def)

text \<open>
  Claim C10.  For every row in which at least one of the six pollutant readings is
  missing, the derived \<open>severity_score\<close> is missing (NaN), \<open>classify_risk\<close> of that
  missing severity is \<open>Low Risk\<close>, so the row's \<open>risk_flag\<close> is \<open>Low Risk\<close> whatever
  its other readings are; and such a row, unless all six readings are missing, is among
  the rows the transform writes.
\<close>

theorem missing_pollutant_low_risk:
  assumes "isna (pm10 r) \<or> isna (pm2_5 r) \<or> isna (carbon_monoxide r)
             \<or> isna (nitrogen_dioxide r) \<or> isna (sulphur_dioxide r) \<or> isna (ozone r)"
  shows "severity_score (enrich (numeric_row parse r)) = None
         \<and> classify_risk (severity_score (enrich (numeric_row parse r))) = ''Low Risk''
         \<and> risk_flag (enrich (numeric_row parse r)) = ''Low Risk''
         \<and> (r \<in> set all_rows \<and> \<not> all_missing r
              \<longrightarrow> enrich (numeric_row parse r) \<in> set (feature_engineering parse all_rows))"
proof -
  let ?n = "numeric_row parse r"
  from assms have "pm10 ?n = None \<or> pm2_5 ?n = None \<or> carbon_monoxide ?n = None
     \<or> nitrogen_dioxide ?n = None \<or> sulphur_dioxide ?n = None \<or> ozone ?n = None"
    by (auto simp: numeric_row_def coerce_float_isna)
  then have sev: "compute_severity ?n = None" by (rule compute_severity_missing)
  have 1: "severity_score (enrich ?n) = None"
    using sev by (simp add: enrich_def Let_def air_row.defs)
  have 2: "risk_flag (enrich ?n) = ''Low Risk''"
    using sev by (simp add: enrich_def Let_def air_row.defs classify_risk_missing)
  have 3: "r \<in> set all_rows \<and> \<not> all_missing r
              \<longrightarrow> enrich ?n \<in> set (feature_engineering parse all_rows)"
    by (auto simp: feature_engineering_def)
  from 1 2 3 show ?thesis by (simp add: classify_risk_missing)
qed

theorem missing_pollutant_low_risk_witness:
  "isna (ozone \<lparr>city = ''Delhi'', time = PStr ''2025-01-01T00:00'', pm10 = PFloat 900,
                 pm2_5 = PFloat 950, carbon_monoxide = PFloat 4000, nitrogen_dioxide = PFloat 300,
                 sulphur_dioxide = PFloat 200, ozone = PNone, uv_index = PNone\<rparr>)
   \<and> risk_flag (enrich (numeric_row (\<lambda>s. None)
         \<lparr>city = ''Delhi'', time = PStr ''2025-01-01T00:00'', pm10 = PFloat 900,
          pm2_5 = PFloat 950, carbon_monoxide = PFloat 4000, nitrogen_dioxide = PFloat 300,
          sulphur_dioxide = PFloat 200, ozone = PNone, uv_index = PNone\<rparr>)) = ''Low Risk''
   \<and> risk_flag (enrich (numeric_row (\<lambda>s. None)
         \<lparr>city = ''Delhi'', time = PStr ''2025-01-01T00:00'', pm10 = PFloat 900,
          pm2_5 = PFloat 950, carbon_monoxide = PFloat 4000, nitrogen_dioxide = PFloat 300,
          sulphur_dioxide = PFloat 200, ozone = PFloat 0, uv_index = PNone\<rparr>)) = ''High Risk''"
proof -
  let ?r = "\<lparr>city = ''Delhi'', time = PStr ''2025-01-01T00:00'', pm10 = PFloat 900,
                 pm2_5 = PFloat 950, carbon_monoxide = PFloat 4000, nitrogen_dioxide = PFloat 300,
                 sulphur_dioxide = PFloat 200, ozone = PNone, uv_index = PNone\<rparr>"
  have h: "isna (ozone ?r)" by (simp add: isna_def)
  then have h': "isna (pm10 ?r) \<or> isna (pm2_5 ?r) \<or> isna (carbon_monoxide ?r)
             \<or> isna (nitrogen_dioxide ?r) \<or> isna (sulphur_dioxide ?r) \<or> isna (ozone ?r)"
    by blast
  have full: "risk_flag (enrich (numeric_row (\<lambda>s. None)
         \<lparr>city = ''Delhi'', time = PStr ''2025-01-01T00:00'', pm10 = PFloat 900,
          pm2_5 = PFloat 950, carbon_monoxide = PFloat 4000, nitrogen_dioxide = PFloat 300,
          sulphur_dioxide = PFloat 200, ozone = PFloat 0, uv_index = PNone\<rparr>)) = ''High Risk''"
    by (simp add: enrich_def Let_def air_row.defs numeric_row_def coerce_float_def
          compute_severity_def fmul_def fadd_def classify_risk_def fgt_def)
  from missing_pollutant_low_risk [where r = "?r" and parse = "\<lambda>s. None", OF h'] h full
  show ?thesis by blast
qed

section \<open>Band boundaries\<close>







section \<open>Categorical derivations\<close>

text \<open>
  Claim C8, as amended.  No categorical derivation raises.  For a value outside its mapped
  set, \<open>has_internet_service\<close> and \<open>contract_type_code\<close> give the missing value (null), so
  never a code; \<open>is_multi_line_user\<close> gives 0 for every value other than \<open>Yes\<close>.  The
  results stay within null, 0, 1 (and 2 for the contract code).
\<close>

theorem categorical_fallback:
  "(v \<notin> {PStr ''DSL'', PStr ''Fiber optic'', PStr ''No''} \<longrightarrow> has_internet_service v = None)
   \<and> (v \<notin> {PStr ''Month-to-month'', PStr ''One year'', PStr ''Two year''}
        \<longrightarrow> contract_type_code v = None)
   \<and> (v \<noteq> PStr ''Yes'' \<longrightarrow> is_multi_line_user v = 0)
   \<and> (has_internet_service v \<in> {None, Some 0, Some 1})
   \<and> (contract_type_code v \<in> {None, Some 0, Some 1, Some 2})
   \<and> (is_multi_line_user v \<in> {0, 1})"
proof (intro conjI impI)
  assume "v \<notin> {PStr ''DSL'', PStr ''Fiber optic'', PStr ''No''}"
  then show "has_internet_service v = None"
    by (cases v) (simp_all add: has_internet_service_def series_map_def)
next
  assume "v \<notin> {PStr ''Month-to-month'', PStr ''One year'', PStr ''Two year''}"
  then show "contract_type_code v = None"
    by (cases v) (simp_all add: contract_type_code_def series_map_def)
next
  assume "v \<noteq> PStr ''Yes''"
  then show "is_multi_line_user v = 0" by (simp add: is_multi_line_user_def)
next
  show "has_internet_service v \<in> {None, Some 0, Some 1}"
    by (cases v) (simp_all add: has_internet_service_def series_map_def)
next
  show "contract_type_code v \<in> {None, Some 0, Some 1, Some 2}"
    by (cases v) (simp_all add: contract_type_code_def series_map_def)
next
  show "is_multi_line_user v \<in> {0, 1}" by (simp add: is_multi_line_user_def)
qed

theorem categorical_fallback_witness:
  "PStr ''Unknown'' \<notin> {PStr ''DSL'', PStr ''Fiber optic'', PStr ''No''}
   \<and> PStr ''Unknown'' \<notin> {PStr ''Month-to-month'', PStr ''One year'', PStr ''Two year''}
   \<and> PStr ''Unknown'' \<noteq> PStr ''Yes''
   \<and> has_internet_service (PStr ''Unknown'') = None
   \<and> contract_type_code (PStr ''Unknown'') = None
   \<and> is_multi_line_user (PStr ''Unknown'') = 0"
  using categorical_fallback [of "PStr ''Unknown''"] by simp

text \<open>
  The claim as stated fails for \<open>is_multi_line_user\<close>: a value outside the known
  categories, such as \<open>No phone service\<close> or a missing cell, gives 0, which is the code
  of \<open>No\<close> and neither null nor -1.
\<close>

theorem categorical_fallback_counterexample:
  "is_multi_line_user (PStr ''No phone service'') = 0
   \<and> is_multi_line_user (PStr ''No phone service'') \<noteq> - 1
   \<and> is_multi_line_user (PStr ''No phone service'') = is_multi_line_user (PStr ''No'')
   \<and> is_multi_line_user PNaN = 0"
  by (simp add: is_multi_line_user_def)

section \<open>Missing-value fill\<close>

text \<open>
  Claim C2 (missing values of \<open>tenure\<close>, \<open>MonthlyCharges\<close> and \<open>TotalCharges\<close> are
  replaced by the column's median over the whole batch) does not hold of the code: the
  fill value the source passes is the method \<open>df[col].median\<close>, not its result.  On a
  batch whose second \<open>TotalCharges\<close> cell is blank, the cell becomes the method object
  while the median of the column is 20.  (With pandas' copy-on-write the in-place fill of
  \<open>df[col]\<close> does not reach the frame at all and the cell stays missing.)
\<close>

theorem fill_missing_failing_input:
  "(case fill_missing (map_of [(''10'', 10), (''30'', 30)])
           [''tenure'' \<mapsto> [PInt 1, PInt 5, PInt 9],
            ''MonthlyCharges'' \<mapsto> [PFloat 20, PFloat 50, PFloat 80],
            ''TotalCharges'' \<mapsto> [PStr ''10'', PStr '' '', PStr ''30'']] of
      Inl e \<Rightarrow> None
    | Inr df \<Rightarrow> df ''TotalCharges'')
     = Some [PFloat 10, PMethod ''Series.median'', PFloat 30]
   \<and> series_median (map (to_numeric (map_of [(''10'', 10), (''30'', 30)]))
         [PStr ''10'', PStr '' '', PStr ''30'']) = Some 20
   \<and> PMethod ''Series.median'' \<noteq> PFloat 20"
  by (simp add: fill_missing_def to_numeric_def fillna_def isna_def series_median_def Let_def)

section \<open>Document shapes\<close>

text \<open>
  Claim C5 (an hourly document with a missing pollutant array still gives one row per
  timestamp, with that pollutant \<open>None\<close>) does not hold of the code: the default
  \<open>[None]\<close> of \<open>hourly.get\<close> has one element, so the index \<open>[i]\<close> raises \<open>IndexError\<close> at
  the second timestamp.  With 24 timestamps and no \<open>pm10\<close> array the transform raises;
  with a single timestamp the row is built with \<open>pm10 = None\<close>.
\<close>

theorem normalize_hourly_failing_input:
  "normalize_doc ''Delhi''
     \<lparr>results = None,
      hourly = Some [(''time'', map (\<lambda>h. PInt (int h)) [0 ..< 24]),
                     (''pm2_5'', replicate 24 (PFloat 35)),
                     (''carbon_monoxide'', replicate 24 (PFloat 400)),
                     (''nitrogen_dioxide'', replicate 24 (PFloat 20)),
                     (''sulphur_dioxide'', replicate 24 (PFloat 5)),
                     (''ozone'', replicate 24 (PFloat 60))]\<rparr> = Inl IndexError
   \<and> normalize_doc ''Delhi''
     \<lparr>results = None,
      hourly = Some [(''time'', [PStr ''2025-01-01T00:00'']),
                     (''pm2_5'', [PFloat 35]),
                     (''carbon_monoxide'', [PFloat 400]),
                     (''nitrogen_dioxide'', [PFloat 20]),
                     (''sulphur_dioxide'', [PFloat 5]),
                     (''ozone'', [PFloat 60])]\<rparr>
     = Inr [\<lparr>city = ''Delhi'', time = PStr ''2025-01-01T00:00'', pm10 = PNone, pm2_5 = PFloat 35,
             carbon_monoxide = PFloat 400, nitrogen_dioxide = PFloat 20,
             sulphur_dioxide = PFloat 5, ozone = PFloat 60, uv_index = PNone\<rparr>]"
  by (simp add: normalize_doc_def hourly_rows_def Let_def dict_get_def upt_conv_Cons
        hourly_row_def and_then_def py_index_def)

end
